theory Spec2Isabelle
  imports Complex_Main "HOL-Library.Word"
begin

section \<open>The run loop of the SPSA demonstration\<close>

text \<open>
  The repository is one script, \<^verbatim>\<open>demonstrations/tutorial_spsa.py\<close>. Its only function is
  \<^verbatim>\<open>run_optimizer(opt, cost_function, init_param, num_steps, interval, execs_per_step)\<close>;
  the rest are top-level statements that build circuits, seed numpy's random generator, call
  \<^verbatim>\<open>run_optimizer\<close> four times and plot. The optimizers (\<^verbatim>\<open>qml.SPSAOptimizer\<close>,
  \<^verbatim>\<open>qml.GradientDescentOptimizer\<close>), the cost function (a \<^verbatim>\<open>qml.QNode\<close>) and numpy come from
  libraries: they are parameters of the model.
\<close>

subsection \<open>Numbers\<close>

text \<open>
  The script counts circuit executions in two kinds of number. \<^verbatim>\<open>execs_per_step = 2\<close> and
  \<^verbatim>\<open>2 * 15\<close> (lines 266 and 456) are Python integers, without bound. \<^verbatim>\<open>np.prod(param_shape)\<close>
  (lines 279 and 401) is a 64-bit numpy integer, and so is every product with it: it wraps
  around at \<open>2\<^sup>6\<^sup>3\<close>. For an empty shape \<^verbatim>\<open>np.prod\<close> gives the float \<open>1.0\<close>; floats are read as
  reals.
\<close>

datatype number = PyInt int | Int64 "64 word" | PyFloat real

text \<open>
  \<^verbatim>\<open>n * x\<close> for a Python integer \<open>n\<close>. With a 64-bit \<open>x\<close> the integer is converted to 64 bits
  first, which numpy refuses with \<^verbatim>\<open>OverflowError\<close> when it does not fit, and the product
  wraps around. In \<^verbatim>\<open>run_optimizer\<close> the integer is \<^verbatim>\<open>step + 1\<close>, which fits unless the loop has
  run \<open>2\<^sup>6\<^sup>3\<close> times.
\<close>

fun mul_py :: "int \<Rightarrow> number \<Rightarrow> number" where
  "mul_py n (PyInt e) = PyInt (n * e)"
| "mul_py n (Int64 e) = Int64 (word_of_int n * e)"
| "mul_py n (PyFloat x) = PyFloat (of_int n * x)"

fun converts :: "int \<Rightarrow> number \<Rightarrow> bool" where
  "converts n (Int64 e) = (- (2 ^ 63) \<le> n \<and> n < 2 ^ 63)"
| "converts n x = True"

text \<open>The value of a count. A float is no count; where one is read, it is rounded down.\<close>

fun int_of :: "number \<Rightarrow> int" where
  "int_of (PyInt n) = n"
| "int_of (Int64 w) = sint w"
| "int_of (PyFloat x) = \<lfloor>x\<rfloor>"

text \<open>
  The products \<open>k * x\<close> for \<open>0 \<le> k \<le> n\<close> are exact: always for a Python integer, and for a
  64-bit integer as long as \<open>n * x\<close> stays in the 64-bit range. A float is no count.
\<close>

fun exact_upto :: "number \<Rightarrow> int \<Rightarrow> bool" where
  "exact_upto (PyInt e) n = True"
| "exact_upto (Int64 w) n = (- (2 ^ 63) \<le> n * sint w \<and> n * sint w < 2 ^ 63)"
| "exact_upto (PyFloat x) n = False"

text \<open>
  \<^verbatim>\<open>np.prod\<close> of a tuple of integers: the product in 64 bits, and the float \<open>1.0\<close> for the empty
  tuple. The entries of a shape are sizes, read by numpy as 64-bit integers.
\<close>

fun np_prod :: "64 word list \<Rightarrow> number" where
  "np_prod [] = PyFloat 1"
| "np_prod (x # xs) = Int64 (prod_list (x # xs))"

subsection \<open>Exceptions, printed lines, results\<close>

text \<open>
  The exceptions \<^verbatim>\<open>run_optimizer\<close> can raise by itself: \<^verbatim>\<open>ZeroDivisionError\<close> from
  \<^verbatim>\<open>step % interval\<close>, \<^verbatim>\<open>IndexError\<close> from list indexing, \<^verbatim>\<open>ValueError\<close> from the format \<^verbatim>\<open>:4d\<close>
  applied to a float, \<^verbatim>\<open>OverflowError\<close> from the product with a 64-bit integer. Every
  exception of the cost function or of the optimizer passes through unchanged (there is no
  \<^verbatim>\<open>try\<close> in the script).
\<close>

datatype 'e error = ZeroDivisionError | IndexError | ValueError | OverflowError | Propagated 'e

definition times_py :: "int \<Rightarrow> number \<Rightarrow> 'e error + number" where
  "times_py n x = (if converts n x then Inr (mul_py n x) else Inl OverflowError)"

text \<open>The format \<^verbatim>\<open>:4d\<close> of the status line takes integers of both kinds and refuses a float.\<close>

fun format_d :: "number \<Rightarrow> 'e error + number" where
  "format_d (PyFloat x) = Inl ValueError"
| "format_d x = Inr x"

text \<open>The two kinds of line the function prints: the header and the status line.\<close>

datatype 'c line = Running string int | Status int number 'c

text \<open>
  A call either returns the pair \<^verbatim>\<open>(cost_history, exec_history)\<close> or raises; for a raise the
  model keeps the two local lists as they are at that moment (\<^verbatim>\<open>exec_history\<close> is not yet
  bound while the initial cost is evaluated: \<open>None\<close>).
\<close>

datatype ('e, 'c) outcome =
    Returned "'c list" "number list"
  | Raised "'e error" "'c list" "number list option"

datatype 'e signal = Normal | Raise "'e error"

subsection \<open>The cost function and the optimizer as parameters\<close>

text \<open>
  A cost function is called with an array and the state of its device (shots, noise, any
  counter or random generator it holds). It returns a value or raises, and leaves the array
  it was handed and the device in some state: it may be stochastic and may write to its
  argument, but it reaches no other array of the caller.
\<close>

type_synonym ('p, 'c, 'e, 'd) qnode = "'p \<Rightarrow> 'd \<Rightarrow> ('e + 'c) \<times> 'p \<times> 'd"

text \<open>
  One call of \<^verbatim>\<open>opt.step(cost_function, param)\<close>, seen from the run loop: the optimizer
  evaluates the cost function any number of times and then returns or raises. Besides the
  array it is handed, it can change a state \<open>'s\<close>: the optimizer object and numpy's global
  random generator. Every node says what the handed array and that state hold at that moment:

  \<^item> \<open>Done new arg st\<close> returns the new parameters \<open>new\<close>;
  \<^item> \<open>Fail e arg st\<close> raises \<open>e\<close>;
  \<^item> \<open>Eval None arg st k\<close> evaluates the cost function at the handed array itself, and
    \<open>Eval (Some p) arg st k\<close> at another array \<open>p\<close>; \<open>k\<close> continues with the value and with what
    the cost function left in the array it evaluated. An exception of the cost function
    passes through the optimizer, which is left as it was at the call.
\<close>

datatype ('p, 'c, 'e, 's) step_prog =
    Done 'p 'p 's
  | Fail 'e 'p 's
  | Eval "'p option" 'p 's "'c \<Rightarrow> 'p \<Rightarrow> ('p, 'c, 'e, 's) step_prog"

record ('p, 'c, 'e, 'o, 'g) optimizer_class =
  opt_name :: string
  opt_step :: "'o \<times> 'g \<Rightarrow> 'p \<Rightarrow> ('p, 'c, 'e, 'o \<times> 'g) step_prog"

primrec exec_prog ::
  "('p, 'c, 'e, 'd) qnode \<Rightarrow> ('p, 'c, 'e, 's) step_prog \<Rightarrow> 'd \<Rightarrow> (('e + 'p) \<times> 'p \<times> 's) \<times> 'd" where
  "exec_prog cf (Done new arg st) d = ((Inr new, arg, st), d)"
| "exec_prog cf (Fail e arg st) d = ((Inl e, arg, st), d)"
| "exec_prog cf (Eval t arg st k) d =
     (case cf (case t of None \<Rightarrow> arg | Some p \<Rightarrow> p) d of
        (Inl e, p', d') \<Rightarrow> ((Inl e, (case t of None \<Rightarrow> p' | Some p \<Rightarrow> arg), st), d')
      | (Inr c, p', d') \<Rightarrow> exec_prog cf (k c p') d')"

subsection \<open>The store\<close>

text \<open>
  Arrays are objects: a variable holds an address, the store maps addresses to contents.
  \<open>heap\<close> lists the arrays in the order of their allocation, so an address is an index and a
  new array gets the address \<open>length heap\<close>. \<open>stdout\<close> is what has been printed, \<open>device\<close> the
  state behind the cost function, \<open>optimizer\<close> the state of the object \<^verbatim>\<open>opt\<close>, and \<open>np_random\<close>
  the state of numpy's global random generator, which the script seeds (lines 187 and 392)
  and from which the library draws.
\<close>

record ('p, 'c, 'd, 'o, 'g) world =
  heap :: "'p list"
  stdout :: "'c line list"
  device :: 'd
  optimizer :: 'o
  np_random :: 'g

text \<open>
  \<^verbatim>\<open>np.random.seed(s)\<close>: the generator starts again from the state that belongs to the seed;
  \<open>seeded\<close> is the library's map from seeds to states.
\<close>

definition np_random_seed ::
  "(int \<Rightarrow> 'g) \<Rightarrow> int \<Rightarrow> ('p, 'c, 'd, 'o, 'g) world \<Rightarrow> ('p, 'c, 'd, 'o, 'g) world" where
  "np_random_seed seeded s w = w\<lparr>np_random := seeded s\<rparr>"

text \<open>
  \<^verbatim>\<open>init_param.copy()\<close>: a new array with the contents of the old one. The parameters are
  arrays of numbers, so the copy shares nothing with the original.
\<close>

definition copy_array ::
  "nat \<Rightarrow> ('p, 'c, 'd, 'o, 'g) world \<Rightarrow> nat \<times> ('p, 'c, 'd, 'o, 'g) world" where
  "copy_array a w = (length (heap w), w\<lparr>heap := heap w @ [heap w ! a]\<rparr>)"

definition print :: "'c line \<Rightarrow> ('p, 'c, 'd, 'o, 'g) world \<Rightarrow> ('p, 'c, 'd, 'o, 'g) world" where
  "print msg w = w\<lparr>stdout := stdout w @ [msg]\<rparr>"

text \<open>\<^verbatim>\<open>cost_function(param)\<close>: the array at the address is handed over and may come back changed.\<close>

definition call_qnode ::
  "('p, 'c, 'e, 'd) qnode \<Rightarrow> nat \<Rightarrow> ('p, 'c, 'd, 'o, 'g) world
     \<Rightarrow> ('e + 'c) \<times> ('p, 'c, 'd, 'o, 'g) world" where
  "call_qnode cf a w =
     (case cf (heap w ! a) (device w) of
        (r, p', d') \<Rightarrow> (r, w\<lparr>heap := (heap w)[a := p'], device := d'\<rparr>))"

text \<open>
  \<^verbatim>\<open>opt.step(cost_function, param)\<close>: whether the step returns or raises, the array it was
  handed, the optimizer object, the random generator and the device are as the step left
  them; the result of a step that returns is a new array.
\<close>

definition call_step ::
  "('p, 'c, 'e, 'o, 'g) optimizer_class \<Rightarrow> ('p, 'c, 'e, 'd) qnode \<Rightarrow> nat
     \<Rightarrow> ('p, 'c, 'd, 'o, 'g) world \<Rightarrow> ('e + nat) \<times> ('p, 'c, 'd, 'o, 'g) world" where
  "call_step opt cf a w =
     (case exec_prog cf (opt_step opt (optimizer w, np_random w) (heap w ! a)) (device w) of
        ((Inl e, arg, ost, g), d') \<Rightarrow>
          (Inl e,
           w\<lparr>heap := (heap w)[a := arg], device := d', optimizer := ost, np_random := g\<rparr>)
      | ((Inr new, arg, ost, g), d') \<Rightarrow>
          (Inr (length (heap w)),
           w\<lparr>heap := (heap w)[a := arg] @ [new], device := d', optimizer := ost,
             np_random := g\<rparr>))"

subsection \<open>\<^verbatim>\<open>run_optimizer\<close>\<close>

record 'c locals =
  param :: nat
  cost_history :: "'c list"
  exec_history :: "number list"

text \<open>\<^verbatim>\<open>range(num_steps)\<close>: empty when \<^verbatim>\<open>num_steps\<close> is not positive.\<close>

definition range_py :: "int \<Rightarrow> int list" where
  "range_py n = map int [0..<nat n]"

text \<open>\<^verbatim>\<open>xs[i]\<close> for a list: a negative index counts from the end, an index out of range raises.\<close>

definition index :: "'a list \<Rightarrow> int \<Rightarrow> 'e error + 'a" where
  "index xs i =
     (if 0 \<le> i \<and> i < int (length xs) then Inr (xs ! nat i)
      else if i < 0 \<and> - int (length xs) \<le> i then Inr (xs ! nat (int (length xs) + i))
      else Inl IndexError)"

text \<open>
  The fields of a status line after the step number, in the order the f-string evaluates
  them: \<^verbatim>\<open>exec_history[i]\<close> with the format \<^verbatim>\<open>:4d\<close>, then \<^verbatim>\<open>cost_history[i]\<close>.
\<close>

definition status_fields :: "'c locals \<Rightarrow> int \<Rightarrow> 'e error + number \<times> 'c" where
  "status_fields l i =
     (case index (exec_history l) i of
        Inl e \<Rightarrow> Inl e
      | Inr x \<Rightarrow>
          (case format_d x of
             Inl e \<Rightarrow> Inl e
           | Inr x' \<Rightarrow>
               (case index (cost_history l) i of
                  Inl e \<Rightarrow> Inl e
                | Inr c \<Rightarrow> Inr (x', c))))"

text \<open>
  The status check at the head of the loop body (lines 215 to 219): \<^verbatim>\<open>step % interval\<close> raises
  for \<^verbatim>\<open>interval = 0\<close>; otherwise the line is printed when the remainder is 0.
\<close>

definition status_check ::
  "int \<Rightarrow> int \<Rightarrow> 'c locals \<Rightarrow> ('p, 'c, 'd, 'o, 'g) world
     \<Rightarrow> 'e error + ('p, 'c, 'd, 'o, 'g) world" where
  "status_check interval step l w =
     (if interval = 0 then Inl ZeroDivisionError
      else if step mod interval = 0
      then (case status_fields l step of
              Inl e \<Rightarrow> Inl e
            | Inr (x, c) \<Rightarrow> Inr (print (Status step x c) w))
      else Inr w)"

text \<open>
  The body of the \<^verbatim>\<open>for\<close> loop (lines 214 to 226): the status check, the update step, the
  cost at the new parameters and its append, the product \<^verbatim>\<open>(step + 1) * execs_per_step\<close> and
  its append.
\<close>

definition loop_body ::
  "('p, 'c, 'e, 'o, 'g) optimizer_class \<Rightarrow> ('p, 'c, 'e, 'd) qnode \<Rightarrow> int \<Rightarrow> number \<Rightarrow> int
     \<Rightarrow> 'c locals \<Rightarrow> ('p, 'c, 'd, 'o, 'g) world
     \<Rightarrow> 'e signal \<times> 'c locals \<times> ('p, 'c, 'd, 'o, 'g) world" where
  "loop_body opt cf interval execs_per_step step l w =
     (case status_check interval step l w of
        Inl e \<Rightarrow> (Raise e, l, w)
      | Inr w1 \<Rightarrow>
          (case call_step opt cf (param l) w1 of
             (Inl e, w2) \<Rightarrow> (Raise (Propagated e), l, w2)
           | (Inr a, w2) \<Rightarrow>
               (case call_qnode cf a w2 of
                  (Inl e, w3) \<Rightarrow> (Raise (Propagated e), l\<lparr>param := a\<rparr>, w3)
                | (Inr c, w3) \<Rightarrow>
                    (case times_py (step + 1) execs_per_step of
                       Inl e \<Rightarrow>
                         (Raise e, l\<lparr>param := a, cost_history := cost_history l @ [c]\<rparr>, w3)
                     | Inr x \<Rightarrow>
                         (Normal,
                          l\<lparr>param := a,
                            cost_history := cost_history l @ [c],
                            exec_history := exec_history l @ [x]\<rparr>,
                          w3)))))"

text \<open>\<^verbatim>\<open>for step in ...: body\<close>: the first raise ends the loop.\<close>

fun for_loop ::
  "(int \<Rightarrow> 'l \<Rightarrow> 'w \<Rightarrow> 'e signal \<times> 'l \<times> 'w) \<Rightarrow> int list \<Rightarrow> 'l \<Rightarrow> 'w \<Rightarrow> 'e signal \<times> 'l \<times> 'w" where
  "for_loop body [] l w = (Normal, l, w)"
| "for_loop body (step # rest) l w =
     (case body step l w of
        (Normal, l', w') \<Rightarrow> for_loop body rest l' w'
      | (Raise e, l', w') \<Rightarrow> (Raise e, l', w'))"

text \<open>
  The end of the function (lines 228 to 232): when the loop has ended without a raise, the
  closing status line with \<^verbatim>\<open>exec_history[-1]\<close> and \<^verbatim>\<open>cost_history[-1]\<close>, and the two lists
  as the result.
\<close>

definition finish ::
  "int \<Rightarrow> 'e signal \<times> 'c locals \<times> ('p, 'c, 'd, 'o, 'g) world
     \<Rightarrow> ('e, 'c) outcome \<times> ('p, 'c, 'd, 'o, 'g) world" where
  "finish num_steps res =
     (case res of
        (Raise e, l, w3) \<Rightarrow> (Raised e (cost_history l) (Some (exec_history l)), w3)
      | (Normal, l, w3) \<Rightarrow>
          (case status_fields l (- 1) of
             Inl e \<Rightarrow> (Raised e (cost_history l) (Some (exec_history l)), w3)
           | Inr (x, y) \<Rightarrow>
               (Returned (cost_history l) (exec_history l),
                print (Status num_steps x y) w3)))"

text \<open>
  The function after its first statement (lines 203 to 232), with \<^verbatim>\<open>param\<close> at address \<open>a\<close>:
  the initial cost, the header, the loop and the end. \<^verbatim>\<open>dev = cost_function.device\<close>
  (line 204) reads an attribute of the \<^verbatim>\<open>QNode\<close> into a variable that is not used again;
  every \<^verbatim>\<open>QNode\<close> has this attribute, and the cost functions of the model are \<^verbatim>\<open>QNode\<close>s with
  the state of their device in the store.
\<close>

definition run_from ::
  "('p, 'c, 'e, 'o, 'g) optimizer_class \<Rightarrow> ('p, 'c, 'e, 'd) qnode \<Rightarrow> int \<Rightarrow> int \<Rightarrow> number \<Rightarrow> nat
     \<Rightarrow> ('p, 'c, 'd, 'o, 'g) world \<Rightarrow> ('e, 'c) outcome \<times> ('p, 'c, 'd, 'o, 'g) world" where
  "run_from opt cost_function num_steps interval execs_per_step a w1 =
     (case call_qnode cost_function a w1 of
        (Inl e, w2) \<Rightarrow> (Raised (Propagated e) [] None, w2)
      | (Inr c, w2) \<Rightarrow>
          finish num_steps
            (for_loop (loop_body opt cost_function interval execs_per_step)
               (range_py num_steps)
               \<lparr>param = a, cost_history = [] @ [c], exec_history = [PyInt 0]\<rparr>
               (print (Running (opt_name opt) num_steps) w2)))"

text \<open>The whole function: \<^verbatim>\<open>param = init_param.copy()\<close> (line 201), then the rest.\<close>

definition run_optimizer ::
  "('p, 'c, 'e, 'o, 'g) optimizer_class \<Rightarrow> ('p, 'c, 'e, 'd) qnode \<Rightarrow> nat \<Rightarrow> int \<Rightarrow> int \<Rightarrow> number
     \<Rightarrow> ('p, 'c, 'd, 'o, 'g) world \<Rightarrow> ('e, 'c) outcome \<times> ('p, 'c, 'd, 'o, 'g) world" where
  "run_optimizer opt cost_function init_param num_steps interval execs_per_step w =
     (case copy_array init_param w of
        (a, w1) \<Rightarrow> run_from opt cost_function num_steps interval execs_per_step a w1)"

subsection \<open>The four calls of the script\<close>

text \<open>
  The script assigns \<^verbatim>\<open>execs_per_step\<close> four times, once before each call of
  \<^verbatim>\<open>run_optimizer\<close>: line 266 (SPSA, sampling device), line 279 (gradient descent, sampling
  device), line 401 (gradient descent, \<open>H\<^sub>2\<close> energy) and line 456 (SPSA, \<open>H\<^sub>2\<close> energy).
  \<^verbatim>\<open>param_shape\<close> comes from the library (\<^verbatim>\<open>ansatz.shape(num_layers, num_wires)\<close>) on the
  sampling device and is \<^verbatim>\<open>(2, num_qubits, 3)\<close> for \<open>H\<^sub>2\<close>; \<^verbatim>\<open>np.prod(param_shape)\<close> is the number
  \<open>p\<close> of parameters. In \<^verbatim>\<open>2 * 15 * np.prod(param_shape)\<close> the product \<^verbatim>\<open>2 * 15\<close> of Python
  integers comes first.
\<close>

definition execs_per_step_spsa :: number where
  "execs_per_step_spsa = PyInt 2"

definition execs_per_step_grad :: "64 word list \<Rightarrow> number" where
  "execs_per_step_grad param_shape = mul_py 2 (np_prod param_shape)"

definition param_shape_vqe :: "64 word \<Rightarrow> 64 word list" where
  "param_shape_vqe num_qubits = [2, num_qubits, 3]"

definition execs_per_step_grad_vqe :: "64 word list \<Rightarrow> number" where
  "execs_per_step_grad_vqe param_shape = mul_py (2 * 15) (np_prod param_shape)"

definition execs_per_step_spsa_vqe :: number where
  "execs_per_step_spsa_vqe = PyInt (2 * 15)"

subsection \<open>The SPSA step\<close>

text \<open>
  \<^verbatim>\<open>qml.SPSAOptimizer\<close> is the library's; the script only constructs it (lines 264 and 453) and
  hands it to \<^verbatim>\<open>run_optimizer\<close>. Its step is taken from section 4.2 of the specification. Its
  perturbations are drawn from numpy's global generator, the one the script seeds.
\<close>

text \<open>
  Modelled from the spec: the configuration of the SPSA strategy (section 6), fixed at
  construction; the constructor of \<^verbatim>\<open>qml.SPSAOptimizer\<close> is not in the script.
\<close>

record spsa_config =
  max_iterations :: int
  spsa_c :: real
  spsa_a :: real
  alpha :: real
  gamma :: real
  stability_offset :: real

text \<open>
  Modelled from the spec: the state of the SPSA strategy (section 3), the iteration index \<open>k\<close>,
  counted from 1 and so 1 in a newly constructed optimizer; the class \<^verbatim>\<open>qml.SPSAOptimizer\<close> is
  not in the script.
\<close>

record spsa_state =
  iteration :: nat

definition spsa_new :: spsa_state where
  "spsa_new = \<lparr>iteration = 1\<rparr>"

text \<open>
  Modelled from the spec: the perturbation vector of step 2 of section 4.2, \<open>p\<close> components
  drawn one after the other from the random generator, each \<open>+1\<close> or \<open>-1\<close>; the draw inside
  \<^verbatim>\<open>qml.SPSAOptimizer\<close> is not in the script. \<open>flip\<close> is the library's draw of one sign.
\<close>

fun rademacher :: "('g \<Rightarrow> bool \<times> 'g) \<Rightarrow> nat \<Rightarrow> 'g \<Rightarrow> real list \<times> 'g" where
  "rademacher flip 0 g = ([], g)"
| "rademacher flip (Suc p) g =
     (case flip g of
        (b, g1) \<Rightarrow> (case rademacher flip p g1 of
                      (delta, g2) \<Rightarrow> ((if b then 1 else - 1) # delta, g2)))"

text \<open>
  Modelled from the spec: the decaying scalars \<open>a\<^sub>k\<close> and \<open>c\<^sub>k\<close> of step 1 of section 4.2; the
  schedule inside \<^verbatim>\<open>qml.SPSAOptimizer\<close> is not in the script.
\<close>

definition a_k :: "spsa_config \<Rightarrow> nat \<Rightarrow> real" where
  "a_k cfg k = spsa_a cfg / (real k + stability_offset cfg + 1) powr alpha cfg"

definition c_k :: "spsa_config \<Rightarrow> nat \<Rightarrow> real" where
  "c_k cfg k = spsa_c cfg / (real k + 1) powr gamma cfg"

text \<open>
  Modelled from the spec: the two points of step 3 and the update of steps 4 and 5 of
  section 4.2, from the two values \<open>y\<^sub>+\<close> and \<open>y\<^sub>-\<close>; the arithmetic inside
  \<^verbatim>\<open>qml.SPSAOptimizer.step\<close> is not in the script. The floating-point numbers are read as
  reals.
\<close>

definition shifted :: "real \<Rightarrow> real list \<Rightarrow> real list \<Rightarrow> real list" where
  "shifted c theta delta = map2 (\<lambda>t d. t + c * d) theta delta"

definition spsa_update ::
  "spsa_config \<Rightarrow> nat \<Rightarrow> real list \<Rightarrow> real list \<Rightarrow> real \<Rightarrow> real \<Rightarrow> real list" where
  "spsa_update cfg k theta delta y_plus y_minus =
     (let g_scale = (y_plus - y_minus) / (2 * c_k cfg k)
      in map2 (\<lambda>t d. t - a_k cfg k * g_scale / d) theta delta)"

text \<open>
  Modelled from the spec: one step of the SPSA strategy, steps 1 to 5 of section 4.2 in
  their order (the perturbation is drawn, the cost is evaluated at \<open>\<theta> + c\<^sub>k \<Delta>\<close> and at
  \<open>\<theta> - c\<^sub>k \<Delta>\<close>, every coordinate is updated, the iteration index moves on); the method
  \<^verbatim>\<open>qml.SPSAOptimizer.step\<close> is not in the script.
\<close>

definition spsa_step ::
  "spsa_config \<Rightarrow> ('g \<Rightarrow> bool \<times> 'g) \<Rightarrow> spsa_state \<times> 'g \<Rightarrow> real list
     \<Rightarrow> (real list, real, 'e, spsa_state \<times> 'g) step_prog" where
  "spsa_step cfg flip s theta =
     (let k = iteration (fst s)
      in case rademacher flip (length theta) (snd s) of
           (delta, g) \<Rightarrow>
             Eval (Some (shifted (c_k cfg k) theta delta)) theta (fst s, g) (\<lambda>y_plus _.
             Eval (Some (shifted (- c_k cfg k) theta delta)) theta (fst s, g) (\<lambda>y_minus _.
               Done (spsa_update cfg k theta delta y_plus y_minus) theta
                 ((fst s)\<lparr>iteration := k + 1\<rparr>, g))))"

text \<open>
  Modelled from the spec: the SPSA strategy as an optimizer for the run loop, its step behind
  the single-step interface of section 9; the class \<^verbatim>\<open>qml.SPSAOptimizer\<close> is not in the script.
\<close>

definition spsa_optimizer ::
  "spsa_config \<Rightarrow> ('g \<Rightarrow> bool \<times> 'g)
     \<Rightarrow> (real list, real, 'e, spsa_state, 'g) optimizer_class" where
  "spsa_optimizer cfg flip = \<lparr>opt_name = ''SPSAOptimizer'', opt_step = spsa_step cfg flip\<rparr>"



subsection \<open>Instrumented cost functions\<close>

text \<open>
  \<open>counted cf\<close> is \<open>cf\<close> behind a counter of the evaluations issued so far (whether they return
  or raise); \<open>raising_on j e cf\<close> also raises \<open>e\<close> at the \<open>j\<close>-th evaluation instead of calling
  \<open>cf\<close>.
\<close>

definition counted :: "('p, 'c, 'e, 'd) qnode \<Rightarrow> ('p, 'c, 'e, nat \<times> 'd) qnode" where
  "counted cf p s =
     (case s of (n, d) \<Rightarrow> (case cf p d of (r, p', d') \<Rightarrow> (r, p', (Suc n, d'))))"

definition raising_on :: "nat \<Rightarrow> 'e \<Rightarrow> ('p, 'c, 'e, 'd) qnode \<Rightarrow> ('p, 'c, 'e, nat \<times> 'd) qnode" where
  "raising_on j e cf p s =
     (case s of (n, d) \<Rightarrow>
        if Suc n = j then (Inl e, p, (Suc n, d))
        else (case cf p d of (r, p', d') \<Rightarrow> (r, p', (Suc n, d'))))"

subsection \<open>A small cost function and optimizer for the examples\<close>

text \<open>
  The examples below run the loop on integers: the cost is the sum of the squares of the
  parameters, and the optimizer evaluates it at two shifted points, as SPSA and the
  parameter-shift rule do, before it moves. Its state counts the steps.
\<close>

definition sum_squares :: "(int list, int, string, unit) qnode" where
  "sum_squares p d = (Inr (sum_list (map (\<lambda>x. x * x) p)), p, d)"

definition two_point :: "(int list, int, string, nat, unit) optimizer_class" where
  "two_point =
     \<lparr>opt_name = ''TwoPoint'',
      opt_step = (\<lambda>s p.
        Eval (Some (map (\<lambda>x. x + 1) p)) p s (\<lambda>y_plus _.
        Eval (Some (map (\<lambda>x. x - 1) p)) p s (\<lambda>y_minus _.
        Done (map (\<lambda>x. x - (y_plus - y_minus) div 4) p) p (Suc (fst s), snd s))))\<rparr>"

definition world0 :: "(int list, int, nat \<times> unit, nat, unit) world" where
  "world0 = \<lparr>heap = [[3]], stdout = [], device = (0, ()), optimizer = 1, np_random = ()\<rparr>"

text \<open>
  A gradient descent in the same style: two evaluations for each parameter, one shifted up and
  one shifted down, give the gradient, and the step moves against it.
\<close>

fun shift_gradient ::
  "int list \<Rightarrow> 's \<Rightarrow> nat list \<Rightarrow> int list \<Rightarrow> (int list \<Rightarrow> (int list, int, 'e, 's) step_prog)
     \<Rightarrow> (int list, int, 'e, 's) step_prog" where
  "shift_gradient p s [] g k = k g"
| "shift_gradient p s (i # rest) g k =
     Eval (Some (p[i := p ! i + 1])) p s (\<lambda>y_plus _.
     Eval (Some (p[i := p ! i - 1])) p s (\<lambda>y_minus _.
     shift_gradient p s rest (g @ [(y_plus - y_minus) div 2]) k))"

definition shift_descent :: "(int list, int, string, nat, unit) optimizer_class" where
  "shift_descent =
     \<lparr>opt_name = ''ShiftDescent'',
      opt_step = (\<lambda>s p.
        shift_gradient p s [0..<length p] []
          (\<lambda>g. Done (map2 (\<lambda>x d. x - d div 2) p g) p (Suc (fst s), snd s)))\<rparr>"

text \<open>
  An optimizer that works in place: it first lowers every entry of the array it is handed,
  then evaluates the cost function at that array and returns its values.
\<close>

definition in_place :: "(int list, int, string, nat, unit) optimizer_class" where
  "in_place =
     \<lparr>opt_name = ''InPlace'',
      opt_step = (\<lambda>s p.
        Eval None (map (\<lambda>x. x - 1) p) (Suc (fst s), snd s)
          (\<lambda>y p'. Done p' p' (Suc (fst s), snd s)))\<rparr>"

text \<open>An optimizer that never evaluates the cost function.\<close>

definition fixed_shift :: "(int list, int, string, nat, unit) optimizer_class" where
  "fixed_shift =
     \<lparr>opt_name = ''FixedShift'',
      opt_step = (\<lambda>s p. Done (map (\<lambda>x. x - 1) p) p (Suc (fst s), snd s))\<rparr>"

text \<open>
  For the examples with SPSA: a small congruential generator in the place of numpy's, the
  sum of the parameters as the cost, and a configuration whose exponents are 1.
\<close>

definition lcg :: "nat \<Rightarrow> bool \<times> nat" where
  "lcg g = (even (g div 4), (5 * g + 3) mod 16)"

definition lcg_seeded :: "int \<Rightarrow> nat" where
  "lcg_seeded s = nat (s mod 16)"

definition total :: "(real list, real, string, unit) qnode" where
  "total theta d = (Inr (sum_list theta), theta, d)"

definition config1 :: spsa_config where
  "config1 =
     \<lparr>max_iterations = 2, spsa_c = 1, spsa_a = 1, alpha = 1, gamma = 1, stability_offset = 0\<rparr>"

definition world_spsa :: "(real list, real, nat \<times> unit, spsa_state, nat) world" where
  "world_spsa =
     \<lparr>heap = [[1, 1]], stdout = [], device = (0, ()), optimizer = spsa_new, np_random = 7\<rparr>"


definition world_first :: "(real list, real, nat \<times> unit, spsa_state, nat) world" where
  "world_first =
     \<lparr>heap = [[5], [1, 1], [1, 1], [1, 1], [1 / 3, 1 / 3], [1 / 3, 1 / 3]],
      stdout = [Running ''GradientDescentOptimizer'' 15, Running ''SPSAOptimizer'' 3,
                Status 0 (PyInt 0) 2, Status 2 (PyInt 4) (2 / 3), Status 3 (PyInt 6) (2 / 3)],
      device = (13, ()), optimizer = \<lparr>iteration = 4\<rparr>, np_random = 8\<rparr>"


text \<open>Stores for the examples: two, twenty-four and no parameters.\<close>

definition world_pair :: "(int list, int, nat \<times> unit, nat, unit) world" where
  "world_pair =
     \<lparr>heap = [[1, 1]], stdout = [], device = (0, ()), optimizer = 0, np_random = ()\<rparr>"

definition world_vqe :: "(int list, int, nat \<times> unit, nat, unit) world" where
  "world_vqe =
     \<lparr>heap = [replicate 24 1], stdout = [], device = (0, ()), optimizer = 0, np_random = ()\<rparr>"

definition world_empty :: "(int list, int, nat \<times> unit, nat, unit) world" where
  "world_empty = \<lparr>heap = [[]], stdout = [], device = (0, ()), optimizer = 0, np_random = ()\<rparr>"

subsection \<open>A run seen from where it starts\<close>





lemmas run_simps =
  run_optimizer_def run_from_def finish_def copy_array_def call_qnode_def call_step_def
  status_check_def status_fields_def loop_body_def times_py_def range_py_def index_def
  print_def counted_def raising_on_def sum_squares_def two_point_def in_place_def
  fixed_shift_def world0_def

lemmas spsa_simps =
  spsa_optimizer_def spsa_step_def spsa_update_def shifted_def a_k_def c_k_def spsa_new_def
  total_def config1_def lcg_def Let_def

section \<open>The histories of a run\<close>

lemma loop_body_Normal:
  assumes "loop_body opt cf interval e step l w = (Normal, l', w')"
  shows "interval \<noteq> 0 \<and> (\<exists>c. cost_history l' = cost_history l @ [c])
         \<and> exec_history l' = exec_history l @ [mul_py (step + 1) e]"
  using assms
  by (auto simp: loop_body_def status_check_def times_py_def
      split: if_splits sum.splits prod.splits)

lemma loop_body_Raise:
  assumes "loop_body opt cf interval e step l w = (Raise err, l', w')"
  shows "exec_history l' = exec_history l
         \<and> (err \<noteq> OverflowError \<longrightarrow> cost_history l' = cost_history l)"
  using assms
  by (auto simp: loop_body_def status_check_def times_py_def
      split: if_splits sum.splits prod.splits)

lemma for_loop_Normal:
  assumes "for_loop (loop_body opt cf interval e) steps l w = (Normal, l', w')"
  shows "(\<exists>cs. cost_history l' = cost_history l @ cs \<and> length cs = length steps)
         \<and> exec_history l' = exec_history l @ map (\<lambda>s. mul_py (s + 1) e) steps"
  using assms
proof (induction steps arbitrary: l w)
  case Nil
  then show ?case by simp
next
  case (Cons s steps)
  from Cons.prems obtain l1 w1 where
    b: "loop_body opt cf interval e s l w = (Normal, l1, w1)"
    and r: "for_loop (loop_body opt cf interval e) steps l1 w1 = (Normal, l', w')"
    by (auto split: prod.splits signal.splits)
  from loop_body_Normal [OF b] obtain c where
    c: "cost_history l1 = cost_history l @ [c]" "exec_history l1 = exec_history l @ [mul_py (s + 1) e]"
    by blast
  from Cons.IH [OF r] obtain cs where
    cs: "cost_history l' = cost_history l1 @ cs" "length cs = length steps"
      "exec_history l' = exec_history l1 @ map (\<lambda>s. mul_py (s + 1) e) steps"
    by blast
  from c cs have "cost_history l' = cost_history l @ (c # cs)" "length (c # cs) = length (s # steps)"
    and "exec_history l' = exec_history l @ map (\<lambda>s. mul_py (s + 1) e) (s # steps)"
    by simp_all
  then show ?case by blast
qed

lemma for_loop_Raise:
  assumes "for_loop (loop_body opt cf interval e) steps l w = (Raise err, l', w')"
  shows "\<exists>j < length steps.
           exec_history l' = exec_history l @ map (\<lambda>s. mul_py (s + 1) e) (take j steps)
           \<and> (err \<noteq> OverflowError
                \<longrightarrow> (\<exists>cs. cost_history l' = cost_history l @ cs \<and> length cs = j))"
  using assms
proof (induction steps arbitrary: l w)
  case Nil
  then show ?case by simp
next
  case (Cons s steps)
  obtain sg l1 w1 where b: "loop_body opt cf interval e s l w = (sg, l1, w1)"
    by (metis prod_cases3)
  show ?case
  proof (cases sg)
    case Normal
    with b Cons.prems have r: "for_loop (loop_body opt cf interval e) steps l1 w1 = (Raise err, l', w')"
      by simp
    from Cons.IH [OF r] obtain j where j: "j < length steps"
      "exec_history l' = exec_history l1 @ map (\<lambda>s. mul_py (s + 1) e) (take j steps)"
      "err \<noteq> OverflowError \<longrightarrow> (\<exists>cs. cost_history l' = cost_history l1 @ cs \<and> length cs = j)"
      by blast
    from b Normal loop_body_Normal obtain c where
      c: "cost_history l1 = cost_history l @ [c]" "exec_history l1 = exec_history l @ [mul_py (s + 1) e]"
      by blast
    have "err \<noteq> OverflowError
            \<longrightarrow> (\<exists>cs. cost_history l' = cost_history l @ cs \<and> length cs = Suc j)"
    proof
      assume "err \<noteq> OverflowError"
      with j obtain cs where "cost_history l' = cost_history l1 @ cs" "length cs = j" by blast
      with c have "cost_history l' = cost_history l @ (c # cs)" "length (c # cs) = Suc j" by simp_all
      then show "\<exists>cs. cost_history l' = cost_history l @ cs \<and> length cs = Suc j" by blast
    qed
    moreover from j c have
      "exec_history l' = exec_history l @ map (\<lambda>s. mul_py (s + 1) e) (take (Suc j) (s # steps))"
      "Suc j < length (s # steps)"
      by simp_all
    ultimately show ?thesis by blast
  next
    case (Raise err')
    with b Cons.prems have "l' = l1" "err' = err" by simp_all
    moreover from b Raise have "loop_body opt cf interval e s l w = (Raise err', l1, w1)" by simp
    note loop_body_Raise [OF this]
    ultimately show ?thesis
      by (intro exI [of _ 0]) auto
  qed
qed

lemma run_optimizer_Returned:
  assumes "run_optimizer opt cf a n interval e w = (Returned ch eh, w')"
  shows "(\<exists>c cs. fst (cf (heap w ! a) (device w)) = Inr c \<and> ch = c # cs \<and> length cs = nat n)
         \<and> eh = PyInt 0 # map (\<lambda>k. mul_py (int (Suc k)) e) [0..<nat n]"
proof -
  from assms obtain c w2 l w3 where
    c: "fst (cf (heap w ! a) (device w)) = Inr c"
    and f: "for_loop (loop_body opt cf interval e) (range_py n)
       \<lparr>param = length (heap w), cost_history = [c], exec_history = [PyInt 0]\<rparr> w2 = (Normal, l, w3)"
    and h: "ch = cost_history l" "eh = exec_history l"
    by (auto simp: run_optimizer_def run_from_def finish_def copy_array_def call_qnode_def
        split: prod.splits sum.splits signal.splits)
  have "length (range_py n) = nat n"
    and "map (\<lambda>s. mul_py (s + 1) e) (range_py n) = map (\<lambda>k. mul_py (int (Suc k)) e) [0..<nat n]"
    by (simp_all add: range_py_def comp_def add.commute)
  with for_loop_Normal [OF f] h c show ?thesis by auto
qed

lemma exec_history_nth:
  assumes "run_optimizer opt cf a n interval e w = (Returned ch eh, w')" and "k < nat n"
  shows "eh ! 0 = PyInt 0" and "eh ! Suc k = mul_py (int (Suc k)) e" and "length eh = Suc (nat n)"
  using run_optimizer_Returned [OF assms(1)] assms(2) by simp_all

subsection \<open>Exact counts\<close>

lemma sint_word_of_int_exact:
  assumes "- (2 ^ 63) \<le> x" and "x < 2 ^ 63"
  shows "sint (word_of_int x :: 64 word) = x"
  using assms by (simp add: sint_sbintrunc' signed_take_bit_int_eq_self)

lemma sint_times:
  assumes "- (2 ^ 63) \<le> a * sint w" and "a * sint w < 2 ^ 63"
  shows "sint (word_of_int a * w :: 64 word) = a * sint w"
  using sint_word_of_int_exact [OF assms] by simp

lemma between_products:
  fixes k n s :: int
  assumes "0 \<le> k" and "k \<le> n" and "- b \<le> n * s" and "n * s < b"
  shows "- b \<le> k * s \<and> k * s < b"
proof (cases "0 \<le> s")
  case True
  with assms have "k * s \<le> n * s" "0 \<le> k * s" by (simp_all add: mult_right_mono)
  with assms show ?thesis by linarith
next
  case False
  with assms have "n * s \<le> k * s" "k * s \<le> 0"
    by (simp_all add: mult_right_mono_neg mult_nonneg_nonpos)
  with assms show ?thesis by linarith
qed

lemma int_of_mul_py:
  assumes "exact_upto e n" and "0 \<le> k" and "k \<le> n"
  shows "int_of (mul_py k e) = k * int_of e"
proof (cases e)
  case (PyInt x)
  then show ?thesis by simp
next
  case (Int64 x)
  with assms between_products [of k n "2 ^ 63" "sint x"] show ?thesis
    by (simp add: sint_times)
next
  case (PyFloat x)
  with assms show ?thesis by simp
qed

lemma strictly_increasing_multiples:
  assumes "0 < (v::int)"
  shows "sorted_wrt (<) (map (\<lambda>k. int k * v) [0..<m])"
proof -
  have "sorted_wrt (\<lambda>x y. int x * v < int y * v) [0..<m]"
    by (rule sorted_wrt_mono_rel [of _ "(<)"]) (use assms in auto)
  then show ?thesis by (simp add: sorted_wrt_map)
qed

lemma exact_counts:
  assumes "run_optimizer opt cf a n interval e w = (Returned ch eh, w')"
    and "exact_upto e n"
  shows "map int_of eh = map (\<lambda>k. int k * int_of e) [0..<Suc (nat n)]"
proof -
  have m: "int_of (mul_py (int (Suc k)) e) = int (Suc k) * int_of e" if "k < nat n" for k
    using that by (intro int_of_mul_py [OF assms(2)]) auto
  have "[0..<Suc (nat n)] = 0 # map Suc [0..<nat n]"
    by (simp add: upt_conv_Cons map_Suc_upt del: upt_Suc)
  moreover have "map int_of (map (\<lambda>k. mul_py (int (Suc k)) e) [0..<nat n])
                   = map (\<lambda>k. int (Suc k) * int_of e) [0..<nat n]"
    using m by simp
  ultimately show ?thesis
    using run_optimizer_Returned [OF assms(1)] by (simp add: comp_def del: upt_Suc)
qed

lemma exact_count_nth:
  assumes "run_optimizer opt cf a n interval e w = (Returned ch eh, w')"
    and "exact_upto e n" and "k \<le> nat n"
  shows "int_of (eh ! k) = int k * int_of e"
proof -
  from run_optimizer_Returned [OF assms(1)] have "length eh = Suc (nat n)" by simp
  with assms(3) have "int_of (eh ! k) = map int_of eh ! k" by simp
  also have "\<dots> = int k * int_of e"
    using assms(3) by (simp add: exact_counts [OF assms(1,2)] del: upt_Suc)
  finally show ?thesis .
qed

text \<open>
  C2. A call with \<open>0 \<le> num_steps\<close> that returns gives two lists of \<open>num_steps + 1\<close> entries
  each. The first entry of the cost history is the cost function's value at the initial
  parameters, evaluated before any step, and the first entry of the execution history is 0.
\<close>

theorem history_lengths:
  assumes "0 \<le> num_steps"
    and "run_optimizer opt cost_function init_param num_steps interval execs_per_step w
           = (Returned ch eh, w')"
  shows "int (length ch) = num_steps + 1 \<and> int (length eh) = num_steps + 1
         \<and> fst (cost_function (heap w ! init_param) (device w)) = Inr (ch ! 0)
         \<and> eh ! 0 = PyInt 0"
proof -
  from run_optimizer_Returned [OF assms(2)] obtain c cs where
    "fst (cost_function (heap w ! init_param) (device w)) = Inr c" "ch = c # cs"
    "length cs = nat num_steps"
    "eh = PyInt 0 # map (\<lambda>k. mul_py (int (Suc k)) execs_per_step) [0..<nat num_steps]"
    by blast
  with assms(1) show ?thesis by simp
qed

theorem history_lengths_witness:
  "(0::int) \<le> 2
   \<and> run_optimizer two_point (counted sum_squares) 0 2 1 (PyInt 2) world0
       = (Returned [9, 0, 0] [PyInt 0, PyInt 2, PyInt 4],
          \<lparr>heap = [[3], [3], [0], [0]],
           stdout = [Running ''TwoPoint'' 2, Status 0 (PyInt 0) 9, Status 1 (PyInt 2) 0,
                     Status 2 (PyInt 4) 0],
           device = (7, ()), optimizer = 3, np_random = ()\<rparr>)
   \<and> int (length [9, 0, 0 :: int]) = 2 + 1 \<and> int (length [PyInt 0, PyInt 2, PyInt 4]) = 2 + 1
   \<and> fst (counted sum_squares (heap world0 ! 0) (device world0)) = Inr ([9, 0, 0] ! 0)
   \<and> [PyInt 0, PyInt 2, PyInt 4] ! 0 = PyInt 0"
proof -
  have r: "run_optimizer two_point (counted sum_squares) 0 2 1 (PyInt 2) world0
       = (Returned [9, 0, 0] [PyInt 0, PyInt 2, PyInt 4],
          \<lparr>heap = [[3], [3], [0], [0]],
           stdout = [Running ''TwoPoint'' 2, Status 0 (PyInt 0) 9, Status 1 (PyInt 2) 0,
                     Status 2 (PyInt 4) 0],
           device = (7, ()), optimizer = 3, np_random = ()\<rparr>)"
    by (simp add: run_simps upt_rec)
  have h: "(0::int) \<le> 2" by simp
  from history_lengths [OF h r] r show ?thesis by simp
qed

subsection \<open>Concrete runs\<close>

lemma run_two_steps:
  "run_optimizer two_point (counted sum_squares) 0 2 1 (PyInt 2) world0
     = (Returned [9, 0, 0] [PyInt 0, PyInt 2, PyInt 4],
        \<lparr>heap = [[3], [3], [0], [0]],
         stdout = [Running ''TwoPoint'' 2, Status 0 (PyInt 0) 9, Status 1 (PyInt 2) 0,
                   Status 2 (PyInt 4) 0],
         device = (7, ()), optimizer = 3, np_random = ()\<rparr>)"
  by (simp add: run_simps upt_rec)

text \<open>The sampling device of the script has the shape \<open>(5, 4, 3)\<close>: 120 executions for a step.\<close>

lemma run_sampling_shape:
  "run_optimizer two_point (counted sum_squares) 0 2 1 (execs_per_step_grad [5, 4, 3]) world0
     = (Returned [9, 0, 0] [PyInt 0, Int64 120, Int64 240],
        \<lparr>heap = [[3], [3], [0], [0]],
         stdout = [Running ''TwoPoint'' 2, Status 0 (PyInt 0) 9, Status 1 (Int64 120) 0,
                   Status 2 (Int64 240) 0],
         device = (7, ()), optimizer = 3, np_random = ()\<rparr>)"
  by (simp add: run_simps upt_rec execs_per_step_grad_def)

lemma run_descent_pair:
  "run_optimizer shift_descent (counted sum_squares) 0 1 3 (execs_per_step_grad [2, 1, 1]) world_pair
     = (Returned [2, 0] [PyInt 0, Int64 4],
        \<lparr>heap = [[1, 1], [1, 1], [0, 0]],
         stdout = [Running ''ShiftDescent'' 1, Status 0 (PyInt 0) 2, Status 1 (Int64 4) 0],
         device = (6, ()), optimizer = 1, np_random = ()\<rparr>)"
  by code_simp

lemma run_descent_vqe:
  "fst (run_optimizer shift_descent (counted sum_squares) 0 1 3
          (execs_per_step_grad_vqe (param_shape_vqe 4)) world_vqe)
     = Returned [24, 0] [PyInt 0, Int64 720]"
  by code_simp

text \<open>
  A 64-bit count that leaves its range wraps around: with \<open>2\<^sup>6\<^sup>2\<close> for a step, the second step
  is recorded as \<open>- 2\<^sup>6\<^sup>3\<close>. The product of a shape wraps in the same way, and an empty shape
  gives a float, which the status line refuses.
\<close>

lemma run_wraps:
  "fst (run_optimizer two_point (counted sum_squares) 0 2 1 (Int64 (2 ^ 62)) world0)
     = Returned [9, 0, 0] [PyInt 0, Int64 (2 ^ 62), Int64 (2 ^ 63)]
   \<and> int_of (Int64 (2 ^ 62)) = 2 ^ 62 \<and> int_of (Int64 (2 ^ 63)) = - (2 ^ 63)"
  by (simp add: run_simps upt_rec)

lemma np_prod_wraps: "np_prod [2 ^ 32, 2 ^ 32] = Int64 0"
  by simp

lemma run_empty_shape:
  "fst (run_optimizer two_point (counted sum_squares) 0 2 1 (execs_per_step_grad []) world0)
     = Raised ValueError [9, 0] (Some [PyInt 0, PyFloat 2])"
  by (simp add: run_simps upt_rec execs_per_step_grad_def)

section \<open>The execution history\<close>

text \<open>
  C3, as the code has it. \<^verbatim>\<open>run_optimizer\<close> does not check \<^verbatim>\<open>execs_per_step\<close>. As long as the
  products \<open>k * execs_per_step\<close> up to \<open>k = num_steps\<close> are exact (always for a Python integer,
  and for a 64-bit integer while they stay in the 64-bit range), the \<open>k\<close>-th entry of the
  execution history of a run that returns is \<open>k * execs_per_step\<close>, and each entry exceeds the
  one before by exactly \<^verbatim>\<open>execs_per_step\<close>, whatever its sign; so for a positive
  \<^verbatim>\<open>execs_per_step\<close> the history is strictly increasing.
\<close>

theorem exec_history_increments:
  assumes "run_optimizer opt cost_function init_param num_steps interval execs_per_step w
           = (Returned ch eh, w')"
    and "exact_upto execs_per_step num_steps"
    and "k < nat num_steps"
  shows "int_of (eh ! k) = int k * int_of execs_per_step
         \<and> int_of (eh ! Suc k) = int_of (eh ! k) + int_of execs_per_step
         \<and> (0 < int_of execs_per_step \<longrightarrow> sorted_wrt (<) (map int_of eh))"
proof -
  from assms(3) have "int_of (eh ! k) = int k * int_of execs_per_step"
    and "int_of (eh ! Suc k) = int (Suc k) * int_of execs_per_step"
    by (simp_all add: exact_count_nth [OF assms(1,2)])
  moreover have "sorted_wrt (<) (map int_of eh)" if "0 < int_of execs_per_step"
    using strictly_increasing_multiples [OF that] by (simp only: exact_counts [OF assms(1,2)])
  ultimately show ?thesis by (simp add: algebra_simps)
qed

theorem exec_history_increments_witness:
  "run_optimizer two_point (counted sum_squares) 0 2 1 (execs_per_step_grad [5, 4, 3]) world0
     = (Returned [9, 0, 0] [PyInt 0, Int64 120, Int64 240],
        \<lparr>heap = [[3], [3], [0], [0]],
         stdout = [Running ''TwoPoint'' 2, Status 0 (PyInt 0) 9, Status 1 (Int64 120) 0,
                   Status 2 (Int64 240) 0],
         device = (7, ()), optimizer = 3, np_random = ()\<rparr>)
   \<and> exact_upto (execs_per_step_grad [5, 4, 3]) 2
   \<and> (1::nat) < nat 2
   \<and> int_of (execs_per_step_grad [5, 4, 3]) = 120
   \<and> int_of ([PyInt 0, Int64 120, Int64 240] ! 1) = int 1 * 120
   \<and> int_of ([PyInt 0, Int64 120, Int64 240] ! Suc 1)
       = int_of ([PyInt 0, Int64 120, Int64 240] ! 1) + 120
   \<and> sorted_wrt (<) (map int_of [PyInt 0, Int64 120, Int64 240])"
proof -
  have x: "exact_upto (execs_per_step_grad [5, 4, 3]) 2"
    and v: "int_of (execs_per_step_grad [5, 4, 3]) = 120"
    by (simp_all add: execs_per_step_grad_def)
  have k: "(1::nat) < nat 2" by simp
  from exec_history_increments [OF run_sampling_shape x k] run_sampling_shape x k v
  show ?thesis by simp
qed

text \<open>
  With \<^verbatim>\<open>execs_per_step = 0\<close> the run returns as well, and its execution history is constant:
  not strictly increasing. And with the positive 64-bit \<^verbatim>\<open>execs_per_step\<close> \<open>2\<^sup>6\<^sup>2\<close> the second
  step is recorded as \<open>- 2\<^sup>6\<^sup>3\<close>: the history decreases.
\<close>

theorem exec_history_not_increasing_counterexample:
  "fst (run_optimizer two_point (counted sum_squares) 0 2 1 (PyInt 0) world0)
     = Returned [9, 0, 0] [PyInt 0, PyInt 0, PyInt 0]
   \<and> \<not> int_of ([PyInt 0, PyInt 0, PyInt 0] ! 0) < int_of ([PyInt 0, PyInt 0, PyInt 0] ! 1)
   \<and> fst (run_optimizer two_point (counted sum_squares) 0 2 1 (Int64 (2 ^ 62)) world0)
     = Returned [9, 0, 0] [PyInt 0, Int64 (2 ^ 62), Int64 (2 ^ 63)]
   \<and> 0 < int_of (Int64 (2 ^ 62))
   \<and> \<not> int_of ([PyInt 0, Int64 (2 ^ 62), Int64 (2 ^ 63)] ! 1)
         \<le> int_of ([PyInt 0, Int64 (2 ^ 62), Int64 (2 ^ 63)] ! 2)"
  by (simp add: run_simps upt_rec)

subsection \<open>The product of a shape\<close>

lemma word_prod_list: "(word_of_int (prod_list (map sint ws)) :: 64 word) = prod_list ws"
  by (induction ws) simp_all

lemma int_of_scaled_prod:
  assumes "param_shape \<noteq> []"
    and "- (2 ^ 63) \<le> c * prod_list (map sint param_shape)"
    and "c * prod_list (map sint param_shape) < 2 ^ 63"
  shows "int_of (mul_py c (np_prod param_shape)) = c * prod_list (map sint param_shape)"
proof -
  from assms(1) obtain x xs where "param_shape = x # xs" by (cases param_shape) auto
  then have "mul_py c (np_prod param_shape) = Int64 (word_of_int c * prod_list param_shape)"
    by simp
  also have "word_of_int c * prod_list param_shape
               = (word_of_int (c * prod_list (map sint param_shape)) :: 64 word)"
    by (simp only: of_int_mult word_prod_list)
  finally show ?thesis
    using sint_word_of_int_exact [OF assms(2,3)] by simp
qed

lemma exact_scaled_prod:
  assumes "param_shape \<noteq> []" and "1 \<le> n"
    and "- (2 ^ 63) \<le> n * (c * prod_list (map sint param_shape))"
    and "n * (c * prod_list (map sint param_shape)) < 2 ^ 63"
  shows "int_of (mul_py c (np_prod param_shape)) = c * prod_list (map sint param_shape)
         \<and> exact_upto (mul_py c (np_prod param_shape)) n"
proof -
  let ?v = "c * prod_list (map sint param_shape)"
  from between_products [of 1 n "2 ^ 63" ?v] assms(2-4)
  have b: "- (2 ^ 63) \<le> ?v" "?v < 2 ^ 63" by simp_all
  note v = int_of_scaled_prod [OF assms(1) b]
  from assms(1) obtain x xs where "param_shape = x # xs" by (cases param_shape) auto
  then obtain u where u: "mul_py c (np_prod param_shape) = Int64 u" by simp
  with v have "sint u = ?v" by simp
  with u assms(3,4) have "exact_upto (mul_py c (np_prod param_shape)) n" by simp
  with v show ?thesis by simp
qed

text \<open>
  C4, as the code has it. What a gradient-descent step is charged is the \<^verbatim>\<open>execs_per_step\<close> of
  the script: \<open>2 * p\<close> on the sampling device (line 279) and \<open>2 * 15 * p\<close> for the \<open>H\<^sub>2\<close> energy
  (line 401), where \<open>p\<close> is the product of the entries of \<^verbatim>\<open>param_shape\<close> and 15 the number of
  terms of the Hamiltonian. Both are 64-bit numpy integers: this holds for a shape that is
  not empty and as long as the last entry of the history, \<open>num_steps\<close> times the charge, stays
  in the 64-bit range.
\<close>

theorem gradient_descent_charge:
  assumes "run_optimizer opt cost_function init_param num_steps interval
             (execs_per_step_grad param_shape) w = (Returned ch eh, w')"
    and "k < nat num_steps"
    and "param_shape \<noteq> []"
    and "- (2 ^ 63) \<le> num_steps * (2 * prod_list (map sint param_shape))"
    and "num_steps * (2 * prod_list (map sint param_shape)) < 2 ^ 63"
    and "run_optimizer opt2 cost_function2 init_param2 num_steps2 interval2
             (execs_per_step_grad_vqe param_shape2) w2 = (Returned ch2 eh2, w2')"
    and "k2 < nat num_steps2"
    and "param_shape2 \<noteq> []"
    and "- (2 ^ 63) \<le> num_steps2 * (2 * 15 * prod_list (map sint param_shape2))"
    and "num_steps2 * (2 * 15 * prod_list (map sint param_shape2)) < 2 ^ 63"
  shows "int_of (eh ! Suc k) - int_of (eh ! k) = 2 * prod_list (map sint param_shape)
         \<and> int_of (eh2 ! Suc k2) - int_of (eh2 ! k2) = 2 * 15 * prod_list (map sint param_shape2)"
proof -
  from assms(2) have n: "1 \<le> num_steps" by simp
  from exact_scaled_prod [OF assms(3) n assms(4,5)]
  have v: "int_of (execs_per_step_grad param_shape) = 2 * prod_list (map sint param_shape)"
    and x: "exact_upto (execs_per_step_grad param_shape) num_steps"
    by (simp_all add: execs_per_step_grad_def)
  from assms(7) have n2: "1 \<le> num_steps2" by simp
  from exact_scaled_prod [OF assms(8) n2, of "2 * 15"] assms(9,10)
  have v2: "int_of (execs_per_step_grad_vqe param_shape2)
              = 2 * 15 * prod_list (map sint param_shape2)"
    and x2: "exact_upto (execs_per_step_grad_vqe param_shape2) num_steps2"
    by (simp_all add: execs_per_step_grad_vqe_def)
  from assms(2) have "int_of (eh ! Suc k) - int_of (eh ! k) = int_of (execs_per_step_grad param_shape)"
    by (simp add: exact_count_nth [OF assms(1) x] algebra_simps)
  moreover from assms(7)
  have "int_of (eh2 ! Suc k2) - int_of (eh2 ! k2) = int_of (execs_per_step_grad_vqe param_shape2)"
    by (simp add: exact_count_nth [OF assms(6) x2] algebra_simps)
  ultimately show ?thesis using v v2 by simp
qed

theorem gradient_descent_charge_witness:
  "run_optimizer shift_descent (counted sum_squares) 0 1 3 (execs_per_step_grad [2, 1, 1]) world_pair
     = (Returned [2, 0] [PyInt 0, Int64 4],
        \<lparr>heap = [[1, 1], [1, 1], [0, 0]],
         stdout = [Running ''ShiftDescent'' 1, Status 0 (PyInt 0) 2, Status 1 (Int64 4) 0],
         device = (6, ()), optimizer = 1, np_random = ()\<rparr>)
   \<and> (0::nat) < nat 1
   \<and> [2, 1, 1 :: 64 word] \<noteq> []
   \<and> - (2 ^ 63) \<le> (1::int) * (2 * prod_list (map sint [2, 1, 1 :: 64 word]))
   \<and> (1::int) * (2 * prod_list (map sint [2, 1, 1 :: 64 word])) < 2 ^ 63
   \<and> run_optimizer two_point (counted sum_squares) 0 2 1 (execs_per_step_grad_vqe [1, 1, 1]) world0
     = (Returned [9, 0, 0] [PyInt 0, Int64 30, Int64 60],
        \<lparr>heap = [[3], [3], [0], [0]],
         stdout = [Running ''TwoPoint'' 2, Status 0 (PyInt 0) 9, Status 1 (Int64 30) 0,
                   Status 2 (Int64 60) 0],
         device = (7, ()), optimizer = 3, np_random = ()\<rparr>)
   \<and> (1::nat) < nat 2
   \<and> [1, 1, 1 :: 64 word] \<noteq> []
   \<and> - (2 ^ 63) \<le> (2::int) * (2 * 15 * prod_list (map sint [1, 1, 1 :: 64 word]))
   \<and> (2::int) * (2 * 15 * prod_list (map sint [1, 1, 1 :: 64 word])) < 2 ^ 63
   \<and> int_of ([PyInt 0, Int64 4] ! Suc 0) - int_of ([PyInt 0, Int64 4] ! 0)
       = 2 * prod_list (map sint [2, 1, 1 :: 64 word])
   \<and> int_of ([PyInt 0, Int64 30, Int64 60] ! Suc 1) - int_of ([PyInt 0, Int64 30, Int64 60] ! 1)
       = 2 * 15 * prod_list (map sint [1, 1, 1 :: 64 word])"
proof -
  have r: "run_optimizer two_point (counted sum_squares) 0 2 1 (execs_per_step_grad_vqe [1, 1, 1]) world0
     = (Returned [9, 0, 0] [PyInt 0, Int64 30, Int64 60],
        \<lparr>heap = [[3], [3], [0], [0]],
         stdout = [Running ''TwoPoint'' 2, Status 0 (PyInt 0) 9, Status 1 (Int64 30) 0,
                   Status 2 (Int64 60) 0],
         device = (7, ()), optimizer = 3, np_random = ()\<rparr>)"
    by (simp add: run_simps upt_rec execs_per_step_grad_vqe_def)
  have k: "(0::nat) < nat 1" and k2: "(1::nat) < nat 2" by simp_all
  have s: "[2, 1, 1 :: 64 word] \<noteq> []" and s2: "[1, 1, 1 :: 64 word] \<noteq> []" by simp_all
  have b: "- (2 ^ 63) \<le> (1::int) * (2 * prod_list (map sint [2, 1, 1 :: 64 word]))"
    "(1::int) * (2 * prod_list (map sint [2, 1, 1 :: 64 word])) < 2 ^ 63"
    by simp_all
  have b2: "- (2 ^ 63) \<le> (2::int) * (2 * 15 * prod_list (map sint [1, 1, 1 :: 64 word]))"
    "(2::int) * (2 * 15 * prod_list (map sint [1, 1, 1 :: 64 word])) < 2 ^ 63"
    by simp_all
  from gradient_descent_charge [OF run_descent_pair k s b r k2 s2 b2] run_descent_pair r
  show ?thesis by simp
qed

text \<open>
  The \<open>H\<^sub>2\<close> run has \<open>p = 2 * 4 * 3 = 24\<close> parameters: each step is charged 720, not \<open>2 * 24\<close>.
\<close>

theorem gradient_descent_charge_counterexample:
  "fst (run_optimizer shift_descent (counted sum_squares) 0 1 3
          (execs_per_step_grad_vqe (param_shape_vqe 4)) world_vqe)
     = Returned [24, 0] [PyInt 0, Int64 720]
   \<and> length (heap world_vqe ! 0) = 24
   \<and> int_of ([PyInt 0, Int64 720] ! 1) - int_of ([PyInt 0, Int64 720] ! 0) \<noteq> 2 * 24"
  using run_descent_vqe by (simp add: world_vqe_def)

section \<open>What the function checks\<close>

text \<open>
  C10. With \<^verbatim>\<open>interval = 0\<close> and at least one step to do, the call raises
  \<^verbatim>\<open>ZeroDivisionError\<close> at the status check of the first iteration (once the initial cost has
  been evaluated): the histories hold their initial entries only, the header is the only line
  printed since, no optimizer step has run (the optimizer object and the random generator
  are in their initial state) and the only array allocated is the copy of the initial
  parameters.
\<close>

theorem interval_zero_raises:
  assumes "1 \<le> num_steps"
    and "call_qnode cost_function (length (heap w)) (snd (copy_array init_param w)) = (Inr c, w1)"
  shows "run_optimizer opt cost_function init_param num_steps 0 execs_per_step w
           = (Raised ZeroDivisionError [c] (Some [PyInt 0]),
              print (Running (opt_name opt) num_steps) w1)
         \<and> optimizer w1 = optimizer w \<and> np_random w1 = np_random w
         \<and> length (heap w1) = Suc (length (heap w))"
proof -
  from assms(1) obtain m where "nat num_steps = Suc m"
    by (cases "nat num_steps") auto
  then have "range_py num_steps = 0 # map int [1..<Suc m]"
    by (simp add: range_py_def upt_conv_Cons del: upt_Suc)
  with assms(2) have "run_optimizer opt cost_function init_param num_steps 0 execs_per_step w
           = (Raised ZeroDivisionError [c] (Some [PyInt 0]),
              print (Running (opt_name opt) num_steps) w1)"
    by (simp add: run_optimizer_def run_from_def finish_def copy_array_def loop_body_def
        status_check_def)
  moreover from assms(2) have "optimizer w1 = optimizer w" "np_random w1 = np_random w"
    "length (heap w1) = Suc (length (heap w))"
    by (auto simp: call_qnode_def copy_array_def split: prod.splits)
  ultimately show ?thesis by simp
qed

theorem interval_zero_raises_witness:
  "(1::int) \<le> 2
   \<and> call_qnode (counted sum_squares) (length (heap world0)) (snd (copy_array 0 world0))
       = (Inr 9,
          \<lparr>heap = [[3], [3]], stdout = [], device = (1, ()), optimizer = 1, np_random = ()\<rparr>)
   \<and> run_optimizer two_point (counted sum_squares) 0 2 0 (PyInt 2) world0
       = (Raised ZeroDivisionError [9] (Some [PyInt 0]),
          \<lparr>heap = [[3], [3]], stdout = [Running ''TwoPoint'' 2], device = (1, ()),
           optimizer = 1, np_random = ()\<rparr>)
   \<and> optimizer world0 = 1 \<and> np_random world0 = () \<and> length (heap world0) = 1"
proof -
  have h: "(1::int) \<le> 2" by simp
  have c: "call_qnode (counted sum_squares) (length (heap world0)) (snd (copy_array 0 world0))
       = (Inr 9,
          \<lparr>heap = [[3], [3]], stdout = [], device = (1, ()), optimizer = 1, np_random = ()\<rparr>)"
    by (simp add: run_simps)
  from interval_zero_raises [OF h c, of two_point "PyInt 2"] c show ?thesis
    by (simp add: print_def two_point_def world0_def)
qed

text \<open>
  C7, as the code has it. \<^verbatim>\<open>run_optimizer\<close> checks none of its arguments and there is no
  \<^verbatim>\<open>ConfigurationError\<close> in the script: a negative \<^verbatim>\<open>num_steps\<close> gives an empty \<^verbatim>\<open>range\<close>, so
  once the initial cost has been evaluated the call prints its two lines and returns the
  initial entries, whatever the length of the parameter vector, the interval and
  \<^verbatim>\<open>execs_per_step\<close> are. The values of \<^verbatim>\<open>c\<close>, \<^verbatim>\<open>a\<close> and \<^verbatim>\<open>stepsize\<close> go to the constructors of the
  library's optimizers, which are not part of the script.
\<close>

theorem negative_num_steps_returns:
  assumes "num_steps < 0"
    and "call_qnode cost_function (length (heap w)) (snd (copy_array init_param w)) = (Inr c, w1)"
  shows "run_optimizer opt cost_function init_param num_steps interval execs_per_step w
           = (Returned [c] [PyInt 0],
              print (Status num_steps (PyInt 0) c) (print (Running (opt_name opt) num_steps) w1))"
  using assms
  by (simp add: run_optimizer_def run_from_def finish_def copy_array_def range_py_def
      status_fields_def index_def)

theorem negative_num_steps_returns_witness:
  "(- 1 :: int) < 0
   \<and> call_qnode (counted sum_squares) (length (heap world0)) (snd (copy_array 0 world0))
       = (Inr 9,
          \<lparr>heap = [[3], [3]], stdout = [], device = (1, ()), optimizer = 1, np_random = ()\<rparr>)
   \<and> run_optimizer two_point (counted sum_squares) 0 (- 1) 0 (PyInt 2) world0
       = (Returned [9] [PyInt 0],
          \<lparr>heap = [[3], [3]],
           stdout = [Running ''TwoPoint'' (- 1), Status (- 1) (PyInt 0) 9],
           device = (1, ()), optimizer = 1, np_random = ()\<rparr>)"
proof -
  have h: "(- 1 :: int) < 0" by simp
  have c: "call_qnode (counted sum_squares) (length (heap world0)) (snd (copy_array 0 world0))
       = (Inr 9,
          \<lparr>heap = [[3], [3]], stdout = [], device = (1, ()), optimizer = 1, np_random = ()\<rparr>)"
    by (simp add: run_simps)
  from negative_num_steps_returns [OF h c, of two_point 0 "PyInt 2"] c show ?thesis
    by (simp add: print_def two_point_def)
qed

text \<open>
  A call with \<^verbatim>\<open>num_steps = -1\<close> on a parameter vector of length zero returns normally.
\<close>

theorem no_configuration_error_counterexample:
  "length (heap world_empty ! 0) = 0
   \<and> fst (run_optimizer two_point (counted sum_squares) 0 (- 1) 1 (PyInt 2) world_empty)
       = Returned [0] [PyInt 0]"
  by (simp add: run_simps world_empty_def)

section \<open>The caller's arrays\<close>

text \<open>
  The first statement of the function copies \<^verbatim>\<open>init_param\<close>; from then on \<^verbatim>\<open>param\<close> holds the
  address of the copy or of an array returned by \<^verbatim>\<open>opt.step\<close>. So every address handed to the
  cost function or to the optimizer is a new one, and whatever they write there, the arrays
  that existed before the call keep their contents.
\<close>

lemma call_qnode_frame:
  assumes "call_qnode cf a w = (r, w')" and "n \<le> a"
  shows "take n (heap w') = take n (heap w) \<and> length (heap w') = length (heap w)"
  using assms by (auto simp: call_qnode_def split: prod.splits)

lemma call_step_frame:
  assumes "call_step opt cf a w = (r, w')" and "n \<le> a" and "n \<le> length (heap w)"
  shows "take n (heap w') = take n (heap w) \<and> length (heap w) \<le> length (heap w')
         \<and> (\<forall>b. r = Inr b \<longrightarrow> n \<le> b)"
  using assms by (auto simp: call_step_def split: prod.splits sum.splits)

lemma status_check_heap:
  assumes "status_check interval step l w = Inr w1"
  shows "heap w1 = heap w \<and> device w1 = device w \<and> optimizer w1 = optimizer w
         \<and> np_random w1 = np_random w"
  using assms by (auto simp: status_check_def print_def split: if_splits sum.splits)

lemma loop_body_frame:
  fixes opt :: "('p, 'c, 'e, 'o, 'g) optimizer_class" and w :: "('p, 'c, 'd, 'o, 'g) world"
  assumes "loop_body opt cf interval e step l w = (sg, l', w')"
    and "n \<le> param l" and "n \<le> length (heap w)"
  shows "take n (heap w') = take n (heap w) \<and> n \<le> param l' \<and> n \<le> length (heap w')"
proof (cases "status_check interval step l w :: 'e error + ('p, 'c, 'd, 'o, 'g) world")
  case (Inl err)
  with assms show ?thesis by (simp add: loop_body_def)
next
  case (Inr w1)
  with status_check_heap have h1: "heap w1 = heap w" by blast
  obtain r w2 where s: "call_step opt cf (param l) w1 = (r, w2)"
    by (cases "call_step opt cf (param l) w1")
  from call_step_frame [OF s assms(2)] assms(3) h1
  have f2: "take n (heap w2) = take n (heap w)" "n \<le> length (heap w2)" "\<forall>b. r = Inr b \<longrightarrow> n \<le> b"
    by auto
  show ?thesis
  proof (cases r)
    case (Inl err)
    with Inr s assms(1) have "l' = l" "w' = w2"
      by (simp_all add: loop_body_def)
    with f2 assms(2) show ?thesis by simp
  next
    case r: (Inr b)
    obtain r3 w3 where q: "call_qnode cf b w2 = (r3, w3)" by (cases "call_qnode cf b w2")
    from f2 r have nb: "n \<le> b" by simp
    from call_qnode_frame [OF q nb] f2
    have f3: "take n (heap w3) = take n (heap w)" "n \<le> length (heap w3)" by auto
    from Inr s r q assms(1) have "w' = w3" "param l' = b"
      by (auto simp: loop_body_def split: sum.splits)
    with f3 nb show ?thesis by simp
  qed
qed

lemma for_loop_frame:
  assumes "for_loop (loop_body opt cf interval e) steps l w = (sg, l', w')"
    and "n \<le> param l" and "n \<le> length (heap w)"
  shows "take n (heap w') = take n (heap w)"
  using assms
proof (induction steps arbitrary: l w)
  case Nil
  then show ?case by simp
next
  case (Cons s steps)
  obtain sg1 l1 w1 where b: "loop_body opt cf interval e s l w = (sg1, l1, w1)"
    by (metis prod_cases3)
  note f = loop_body_frame [OF b Cons.prems(2,3)]
  show ?case
  proof (cases sg1)
    case Normal
    with b Cons.prems(1) have "for_loop (loop_body opt cf interval e) steps l1 w1 = (sg, l', w')"
      by simp
    from Cons.IH [OF this] f show ?thesis by simp
  next
    case (Raise err)
    with b Cons.prems(1) have "w' = w1" by simp
    with f show ?thesis by simp
  qed
qed

lemma finish_heap: "heap (snd (finish n (sg, l, w))) = heap w"
  by (cases sg) (auto simp: finish_def print_def split: sum.splits)

lemma run_optimizer_frame:
  "take (length (heap w)) (heap (snd (run_optimizer opt cf a n interval e w))) = heap w"
proof -
  define w1 where "w1 = snd (copy_array a w)"
  have c: "copy_array a w = (length (heap w), w1)" "heap w1 = heap w @ [heap w ! a]"
    by (simp_all add: w1_def copy_array_def)
  obtain r w2 where q: "call_qnode cf (length (heap w)) w1 = (r, w2)"
    by (cases "call_qnode cf (length (heap w)) w1")
  from call_qnode_frame [OF q order_refl] c
  have f2: "take (length (heap w)) (heap w2) = heap w" "length (heap w) \<le> length (heap w2)"
    by simp_all
  show ?thesis
  proof (cases r)
    case (Inl err)
    with c q f2 show ?thesis by (simp add: run_optimizer_def run_from_def)
  next
    case (Inr v)
    define l0 :: "'b locals" where
      "l0 = \<lparr>param = length (heap w), cost_history = [] @ [v], exec_history = [PyInt 0]\<rparr>"
    define w2' where "w2' = print (Running (opt_name opt) n) w2"
    obtain sg l w3 where f: "for_loop (loop_body opt cf interval e) (range_py n) l0 w2' = (sg, l, w3)"
      by (metis prod_cases3)
    have "heap w2' = heap w2" by (simp add: w2'_def print_def)
    with for_loop_frame [OF f, of "length (heap w)"] f2
    have f3: "take (length (heap w)) (heap w3) = heap w" by (simp add: l0_def)
    have "heap (snd (run_optimizer opt cf a n interval e w)) = heap w3"
      using c q Inr f by (simp add: run_optimizer_def run_from_def l0_def w2'_def finish_heap)
    with f3 show ?thesis by simp
  qed
qed

text \<open>
  C6. Whatever the optimizer and the cost function are, and whether the call returns or
  raises, the array \<^verbatim>\<open>init_param\<close> holds after the call what it held before; so does every
  other array that existed before the call.
\<close>

theorem init_param_unchanged:
  assumes "init_param < length (heap w)"
  shows "heap (snd (run_optimizer opt cost_function init_param num_steps interval execs_per_step w))
           ! init_param = heap w ! init_param
         \<and> take (length (heap w))
              (heap (snd (run_optimizer opt cost_function init_param num_steps interval
                            execs_per_step w))) = heap w"
proof -
  let ?h = "heap (snd (run_optimizer opt cost_function init_param num_steps interval execs_per_step w))"
  have t: "take (length (heap w)) ?h = heap w" by (rule run_optimizer_frame)
  from assms have "take (length (heap w)) ?h ! init_param = ?h ! init_param" by (rule nth_take)
  with t show ?thesis by simp
qed

text \<open>
  The optimizer of this run overwrites the array it is handed at each step: the copy (at
  address 1) ends as \<open>[2]\<close>, the initial parameters (at address 0) are still \<open>[3]\<close>.
\<close>

theorem init_param_unchanged_witness:
  "(0::nat) < length (heap world0)
   \<and> run_optimizer in_place (counted sum_squares) 0 2 1 (PyInt 1) world0
       = (Returned [9, 4, 1] [PyInt 0, PyInt 1, PyInt 2],
          \<lparr>heap = [[3], [2], [1], [1]],
           stdout = [Running ''InPlace'' 2, Status 0 (PyInt 0) 9, Status 1 (PyInt 1) 4,
                     Status 2 (PyInt 2) 1],
           device = (5, ()), optimizer = 3, np_random = ()\<rparr>)
   \<and> [[3], [2], [1], [1 :: int]] ! 0 = heap world0 ! 0
   \<and> take (length (heap world0)) [[3], [2], [1], [1 :: int]] = heap world0"
proof -
  have h: "(0::nat) < length (heap world0)" by (simp add: world0_def)
  have r: "run_optimizer in_place (counted sum_squares) 0 2 1 (PyInt 1) world0
       = (Returned [9, 4, 1] [PyInt 0, PyInt 1, PyInt 2],
          \<lparr>heap = [[3], [2], [1], [1]],
           stdout = [Running ''InPlace'' 2, Status 0 (PyInt 0) 9, Status 1 (PyInt 1) 4,
                     Status 2 (PyInt 2) 1],
           device = (5, ()), optimizer = 3, np_random = ()\<rparr>)"
    by (simp add: run_simps upt_rec)
  from init_param_unchanged [where opt = in_place and cost_function = "counted sum_squares"
      and num_steps = 2 and interval = 1 and execs_per_step = "PyInt 1", OF h] h r
  show ?thesis by (simp add: world0_def)
qed

text \<open>
  A step that raises leaves the array it was handed as it had written it: here the cost
  function raises at its second call, inside the first step, when the optimizer has lowered
  the copy to \<open>[2]\<close> already.
\<close>

lemma run_failed_step:
  "run_optimizer in_place (raising_on 2 ''boom'' sum_squares) 0 2 1 (PyInt 1) world0
     = (Raised (Propagated ''boom'') [9] (Some [PyInt 0]),
        \<lparr>heap = [[3], [2]], stdout = [Running ''InPlace'' 2, Status 0 (PyInt 0) 9],
         device = (2, ()), optimizer = 2, np_random = ()\<rparr>)"
  by (simp add: run_simps upt_rec)

section \<open>Evaluations issued and evaluations recorded\<close>

lemma call_qnode_counted:
  assumes "call_qnode (counted cf) a w = (r, w')"
  shows "fst (device w') = Suc (fst (device w))"
  using assms by (auto simp: call_qnode_def counted_def split: prod.splits)

lemma call_step_counted:
  assumes issue: "\<And>s p k d r arg s' k' d'.
      exec_prog (counted cf) (opt_step opt s p) (k, d) = ((Inr r, arg, s'), (k', d'))
        \<Longrightarrow> k' = k + m"
    and "call_step opt (counted cf) a w = (Inr b, w')"
  shows "fst (device w') = fst (device w) + m"
proof -
  obtain k d where kd: "device w = (k, d)" by (cases "device w")
  from assms(2) obtain r arg s' k' d' where
    "exec_prog (counted cf) (opt_step opt (optimizer w, np_random w) (heap w ! a)) (k, d)
       = ((Inr r, arg, s'), (k', d'))"
    and "device w' = (k', d')"
    by (auto simp: call_step_def kd split: prod.splits sum.splits)
  with issue kd show ?thesis by fastforce
qed

lemma loop_body_counted:
  fixes opt :: "('p, 'c, 'e, 'o, 'g) optimizer_class" and w :: "('p, 'c, nat \<times> 'd, 'o, 'g) world"
  assumes issue: "\<And>s p k d r arg s' k' d'.
      exec_prog (counted cf) (opt_step opt s p) (k, d) = ((Inr r, arg, s'), (k', d'))
        \<Longrightarrow> k' = k + m"
    and "loop_body opt (counted cf) interval e step l w = (Normal, l', w')"
  shows "fst (device w') = fst (device w) + m + 1"
proof -
  from assms(2) obtain w1 b w2 c where
    s: "(status_check interval step l w :: 'e error + ('p, 'c, nat \<times> 'd, 'o, 'g) world) = Inr w1"
    and st: "call_step opt (counted cf) (param l) w1 = (Inr b, w2)"
    and q: "call_qnode (counted cf) b w2 = (Inr c, w')"
    by (auto simp: loop_body_def split: sum.splits prod.splits)
  from s have "device w1 = device w"
    by (auto simp: status_check_def print_def split: if_splits sum.splits)
  with call_step_counted [OF issue st] call_qnode_counted [OF q] show ?thesis by simp
qed

lemma for_loop_counted:
  fixes opt :: "('p, 'c, 'e, 'o, 'g) optimizer_class" and w :: "('p, 'c, nat \<times> 'd, 'o, 'g) world"
  assumes issue: "\<And>s p k d r arg s' k' d'.
      exec_prog (counted cf) (opt_step opt s p) (k, d) = ((Inr r, arg, s'), (k', d'))
        \<Longrightarrow> k' = k + m"
    and "for_loop (loop_body opt (counted cf) interval e) steps l w = (Normal, l', w')"
  shows "fst (device w') = fst (device w) + length steps * (m + 1)"
  using assms(2)
proof (induction steps arbitrary: l w)
  case Nil
  then show ?case by simp
next
  case (Cons s steps)
  from Cons.prems obtain l1 w1 where
    b: "loop_body opt (counted cf) interval e s l w = (Normal, l1, w1)"
    and r: "for_loop (loop_body opt (counted cf) interval e) steps l1 w1 = (Normal, l', w')"
    by (auto split: prod.splits signal.splits)
  from loop_body_counted [OF issue b] Cons.IH [OF r] show ?case by simp
qed

lemma two_point_issues_two:
  "exec_prog (counted cf) (opt_step two_point s p) (k, d) = ((Inr r, arg, s'), (k', d'))
     \<Longrightarrow> k' = k + 2"
  by (auto simp: two_point_def counted_def split: prod.splits sum.splits)

text \<open>
  C5, as the code has it. The execution history records the declared cost of the optimizer
  steps and nothing else: after \<open>k\<close> steps its entry is \<open>k * execs_per_step\<close>, starting from 0.
  The evaluations the loop issues itself to monitor the cost, one before any step and one
  after each step, are not in it. When every step of the optimizer issues exactly \<open>m\<close>
  evaluations and \<open>m\<close> is the declared cost (a Python integer, or a 64-bit integer whose
  multiples up to \<open>num_steps\<close> stay in the 64-bit range), a returning run has issued exactly
  \<open>num_steps + 1\<close> evaluations more than its last entry records.
\<close>

theorem monitoring_not_counted:
  fixes opt :: "('p, 'c, 'e, 'o, 'g) optimizer_class" and w :: "('p, 'c, nat \<times> 'd, 'o, 'g) world"
  assumes issue: "\<And>s p k d r arg s' k' d'.
      exec_prog (counted cost_function) (opt_step opt s p) (k, d) = ((Inr r, arg, s'), (k', d'))
        \<Longrightarrow> k' = k + m"
    and run: "run_optimizer opt (counted cost_function) init_param num_steps interval
                execs_per_step w = (Returned ch eh, w')"
    and exact: "exact_upto execs_per_step num_steps"
    and declared: "int_of execs_per_step = int m"
  shows "int_of (last eh) = int (nat num_steps) * int m
         \<and> int (fst (device w')) - int (fst (device w))
             = int_of (last eh) + int (nat num_steps) + 1"
proof -
  from run_optimizer_Returned [OF run] have "length eh = Suc (nat num_steps)"
    by auto
  then have "last eh = eh ! nat num_steps"
    by (cases eh rule: rev_cases) (simp_all add: nth_append)
  with exact_count_nth [OF run exact, of "nat num_steps"] declared
  have "int_of (last eh) = int (nat num_steps) * int m"
    by simp
  moreover
  from run obtain c w2 l w3 where
    q: "call_qnode (counted cost_function) (length (heap w)) (snd (copy_array init_param w)) = (Inr c, w2)"
    and f: "for_loop (loop_body opt (counted cost_function) interval execs_per_step)
       (range_py num_steps)
       \<lparr>param = length (heap w), cost_history = [c], exec_history = [PyInt 0]\<rparr>
       (print (Running (opt_name opt) num_steps) w2) = (Normal, l, w3)"
    and w': "device w' = device w3"
    by (auto simp: run_optimizer_def run_from_def finish_def copy_array_def print_def
        split: prod.splits sum.splits signal.splits)
  from call_qnode_counted [OF q] have "fst (device w2) = Suc (fst (device w))"
    by (simp add: copy_array_def)
  with for_loop_counted [OF issue f] w'
  have "fst (device w') = Suc (fst (device w)) + nat num_steps * (m + 1)"
    by (simp add: print_def range_py_def)
  ultimately show ?thesis by (simp add: algebra_simps)
qed

theorem monitoring_not_counted_witness:
  "run_optimizer two_point (counted sum_squares) 0 2 1 (PyInt 2) world0
       = (Returned [9, 0, 0] [PyInt 0, PyInt 2, PyInt 4],
          \<lparr>heap = [[3], [3], [0], [0]],
           stdout = [Running ''TwoPoint'' 2, Status 0 (PyInt 0) 9, Status 1 (PyInt 2) 0,
                     Status 2 (PyInt 4) 0],
           device = (7, ()), optimizer = 3, np_random = ()\<rparr>)
   \<and> exact_upto (PyInt 2) 2 \<and> int_of (PyInt 2) = int 2
   \<and> int_of (last [PyInt 0, PyInt 2, PyInt 4]) = int (nat 2) * int 2
   \<and> int 7 - int (fst (device world0)) = int_of (last [PyInt 0, PyInt 2, PyInt 4]) + int (nat 2) + 1"
proof -
  have x: "exact_upto (PyInt 2) 2" and v: "int_of (PyInt 2) = int 2" by simp_all
  from monitoring_not_counted [of sum_squares two_point 2, OF two_point_issues_two run_two_steps x v]
    run_two_steps
  show ?thesis by (simp add: world0_def)
qed

text \<open>
  The same with the 64-bit integer 2 as the declared cost, as \<^verbatim>\<open>2 * np.prod(param_shape)\<close>
  gives for one parameter.
\<close>

lemma run_two_steps_int64:
  "run_optimizer two_point (counted sum_squares) 0 2 1 (execs_per_step_grad [1]) world0
     = (Returned [9, 0, 0] [PyInt 0, Int64 2, Int64 4],
        \<lparr>heap = [[3], [3], [0], [0]],
         stdout = [Running ''TwoPoint'' 2, Status 0 (PyInt 0) 9, Status 1 (Int64 2) 0,
                   Status 2 (Int64 4) 0],
         device = (7, ()), optimizer = 3, np_random = ()\<rparr>)"
  by (simp add: run_simps upt_rec execs_per_step_grad_def)

text \<open>
  The optimizer \<open>two_point\<close> issues two evaluations in every step (lemma
  \<open>two_point_issues_two\<close>). Two steps with a declared cost of 2 record 4 evaluations; 7 were
  issued, and the first entry is 0 although the initial cost had been evaluated.
\<close>

theorem monitoring_not_counted_counterexample:
  "fst (run_optimizer two_point (counted sum_squares) 0 2 1 (PyInt 2) world0)
     = Returned [9, 0, 0] [PyInt 0, PyInt 2, PyInt 4]
   \<and> fst (device world0) = 0
   \<and> fst (device (snd (run_optimizer two_point (counted sum_squares) 0 2 1 (PyInt 2) world0))) = 7
   \<and> int_of (last [PyInt 0, PyInt 2, PyInt 4]) \<noteq> 7"
  by (simp add: run_simps upt_rec)

section \<open>A cost function that raises\<close>

lemma raising_on_apply:
  "raising_on j e cf p (n, d) =
     (if Suc n = j then (Inl e, p, (Suc n, d))
      else (case cf p d of (r, p', d') \<Rightarrow> (r, p', (Suc n, d'))))"
  by (simp add: raising_on_def)

lemma exec_prog_raising:
  assumes "exec_prog (raising_on j e cf) prog (n, d) = ((r, arg, st), (n', d'))" and "n < j"
  shows "n \<le> n' \<and> n' \<le> j \<and> (n' = j \<longrightarrow> r = Inl e)"
  using assms
proof (induction prog arbitrary: n d)
  case (Done new a ost)
  then show ?case by auto
next
  case (Fail x a ost)
  then show ?case by auto
next
  case (Eval t a ost k)
  define p where "p = (case t of None \<Rightarrow> a | Some q \<Rightarrow> q)"
  show ?case
  proof (cases "Suc n = j")
    case True
    with Eval.prems show ?thesis by (auto simp: raising_on_apply)
  next
    case False
    obtain r0 p' d0 where c: "cf p d = (r0, p', d0)" by (metis prod_cases3)
    show ?thesis
    proof (cases r0)
      case (Inl x)
      with c False Eval.prems show ?thesis by (auto simp: raising_on_apply p_def)
    next
      case (Inr v)
      with c False Eval.prems have
        "exec_prog (raising_on j e cf) (k v p') (Suc n, d0) = ((r, arg, st), (n', d'))"
        and "Suc n < j"
        by (auto simp: raising_on_apply p_def)
      from Eval.IH [OF _ _ this, of "k v"] show ?thesis by auto
    qed
  qed
qed

lemma call_qnode_raising:
  assumes "call_qnode (raising_on j e cf) a w = (r, w')" and "fst (device w) < j"
  shows "fst (device w') = Suc (fst (device w)) \<and> (fst (device w') = j \<longrightarrow> r = Inl e)"
proof -
  obtain n d where nd: "device w = (n, d)" by (cases "device w")
  with assms show ?thesis
    by (auto simp: call_qnode_def raising_on_apply split: prod.splits if_splits)
qed

lemma call_step_raising:
  assumes "call_step opt (raising_on j e cf) a w = (r, w')" and "fst (device w) < j"
  shows "fst (device w) \<le> fst (device w') \<and> fst (device w') \<le> j
         \<and> (fst (device w') = j \<longrightarrow> r = Inl e)"
proof -
  obtain n d where nd: "device w = (n, d)" by (cases "device w")
  obtain r0 arg st n' d' where
    x: "exec_prog (raising_on j e cf) (opt_step opt (optimizer w, np_random w) (heap w ! a)) (n, d)
          = ((r0, arg, st), (n', d'))"
    by (metis prod_cases3)
  from assms(2) nd have "n < j" by simp
  note f = exec_prog_raising [OF x this]
  from assms(1) nd x have "device w' = (n', d')"
    by (auto simp: call_step_def split: sum.splits prod.splits)
  moreover from assms(1) nd x have "r0 = Inl e \<Longrightarrow> r = Inl e"
    by (auto simp: call_step_def split: sum.splits prod.splits)
  ultimately show ?thesis using f nd by auto
qed

lemma loop_body_raising:
  fixes opt :: "('p, 'c, 'e, 'o, 'g) optimizer_class" and w :: "('p, 'c, nat \<times> 'd, 'o, 'g) world"
  assumes "loop_body opt (raising_on j e cf) interval x step l w = (sg, l', w')"
    and "fst (device w) < j"
  shows "fst (device w) \<le> fst (device w') \<and> fst (device w') \<le> j
         \<and> (sg = Normal \<longrightarrow> fst (device w) < fst (device w') \<and> fst (device w') < j)
         \<and> (fst (device w') = j \<longrightarrow> sg = Raise (Propagated e))"
proof (cases "status_check interval step l w :: 'e error + ('p, 'c, nat \<times> 'd, 'o, 'g) world")
  case (Inl err)
  with assms show ?thesis by (auto simp: loop_body_def)
next
  case (Inr w1)
  then have d1: "device w1 = device w"
    by (auto simp: status_check_def print_def split: if_splits sum.splits)
  obtain r w2 where s: "call_step opt (raising_on j e cf) (param l) w1 = (r, w2)"
    by (cases "call_step opt (raising_on j e cf) (param l) w1")
  from assms(2) d1 have "fst (device w1) < j" by simp
  note f2 = call_step_raising [OF s this]
  show ?thesis
  proof (cases r)
    case (Inl err)
    with Inr s assms(1) have "w' = w2" "sg = Raise (Propagated err)"
      by (simp_all add: loop_body_def)
    with f2 d1 Inl show ?thesis by auto
  next
    case r: (Inr b)
    with f2 have lt: "fst (device w2) < j" by (cases "fst (device w2) = j") auto
    obtain r3 w3 where q: "call_qnode (raising_on j e cf) b w2 = (r3, w3)"
      by (cases "call_qnode (raising_on j e cf) b w2")
    note f3 = call_qnode_raising [OF q lt]
    from Inr s r q assms(1) have w': "w' = w3"
      by (auto simp: loop_body_def split: sum.splits)
    show ?thesis
    proof (cases r3)
      case (Inl err)
      with Inr s r q assms(1) have "sg = Raise (Propagated err)"
        by (simp add: loop_body_def)
      with Inl f2 f3 d1 w' lt show ?thesis by auto
    next
      case (Inr c)
      with f3 have "fst (device w3) \<noteq> j" by auto
      with f2 f3 d1 w' lt show ?thesis by auto
    qed
  qed
qed

lemma for_loop_raising:
  fixes opt :: "('p, 'c, 'e, 'o, 'g) optimizer_class" and w :: "('p, 'c, nat \<times> 'd, 'o, 'g) world"
  assumes "for_loop (loop_body opt (raising_on j e cf) interval x) steps l w = (sg, l', w')"
    and "fst (device w) < j"
  shows "fst (device w') \<le> j
         \<and> (fst (device w') = j \<longrightarrow> sg = Raise (Propagated e)
              \<and> length (cost_history l') + fst (device w) < length (cost_history l) + fst (device w'))"
  using assms
proof (induction steps arbitrary: l w)
  case Nil
  then show ?case by auto
next
  case (Cons s steps)
  obtain sg1 l1 w1 where b: "loop_body opt (raising_on j e cf) interval x s l w = (sg1, l1, w1)"
    by (metis prod_cases3)
  note f = loop_body_raising [OF b Cons.prems(2)]
  show ?case
  proof (cases sg1)
    case Normal
    with b Cons.prems(1) have
      r: "for_loop (loop_body opt (raising_on j e cf) interval x) steps l1 w1 = (sg, l', w')"
      by simp
    from f Normal have lt: "fst (device w1) < j" and gt: "fst (device w) < fst (device w1)"
      by auto
    from b Normal loop_body_Normal obtain c where "cost_history l1 = cost_history l @ [c]"
      by blast
    then have "length (cost_history l1) = Suc (length (cost_history l))" by simp
    with Cons.IH [OF r lt] gt show ?thesis by auto
  next
    case (Raise err)
    with b Cons.prems(1) have eq: "w' = w1" "l' = l1" "sg = sg1" by simp_all
    have "fst (device w1) = j \<longrightarrow> cost_history l1 = cost_history l"
    proof
      assume "fst (device w1) = j"
      with f have "sg1 = Raise (Propagated e)" by simp
      with b have "loop_body opt (raising_on j e cf) interval x s l w = (Raise (Propagated e), l1, w1)"
        by simp
      from loop_body_Raise [OF this] show "cost_history l1 = cost_history l" by simp
    qed
    with eq f Cons.prems(2) show ?thesis by auto
  qed
qed

text \<open>
  C8, as the code has it. The initial cost evaluation is itself the first call of the cost
  function, and every completed step ends with one more. So when the third call raises, the
  run has completed one step at most: the cost history holds at most 2 entries, never 3. The
  two histories have the same length (no partial entry), the exception reaches the caller
  unchanged, and no call follows the failed one (no retry).
\<close>

theorem third_call_raises:
  fixes opt :: "('p, 'c, 'e, 'o, 'g) optimizer_class" and w :: "('p, 'c, nat \<times> 'd, 'o, 'g) world"
  assumes "fst (device w) = 0"
    and "run_optimizer opt (raising_on 3 e cost_function) init_param num_steps interval
           execs_per_step w = (out, w')"
    and "3 \<le> fst (device w')"
  shows "\<exists>ch eh. out = Raised (Propagated e) ch (Some eh)
           \<and> length ch = length eh \<and> length ch \<le> 2 \<and> fst (device w') = 3"
proof -
  define w1 where "w1 = snd (copy_array init_param w)"
  have c: "copy_array init_param w = (length (heap w), w1)" "device w1 = device w"
    by (simp_all add: w1_def copy_array_def)
  obtain r w2 where q: "call_qnode (raising_on 3 e cost_function) (length (heap w)) w1 = (r, w2)"
    by (cases "call_qnode (raising_on 3 e cost_function) (length (heap w)) w1")
  from c assms(1) have "fst (device w1) < 3" by simp
  from call_qnode_raising [OF q this] c assms(1) have d2: "fst (device w2) = 1" by simp
  show ?thesis
  proof (cases r)
    case (Inl err)
    with c q assms(2) have "w' = w2" by (simp add: run_optimizer_def run_from_def finish_def)
    with d2 assms(3) show ?thesis by simp
  next
    case (Inr v)
    define l0 :: "'c locals" where
      "l0 = \<lparr>param = length (heap w), cost_history = [] @ [v], exec_history = [PyInt 0]\<rparr>"
    define w2' where "w2' = print (Running (opt_name opt) num_steps) w2"
    obtain sg l w3 where
      f: "for_loop (loop_body opt (raising_on 3 e cost_function) interval execs_per_step)
            (range_py num_steps) l0 w2' = (sg, l, w3)"
      by (metis prod_cases3)
    from d2 have d2': "fst (device w2') = 1" by (simp add: w2'_def print_def)
    then have "fst (device w2') < 3" by simp
    note g = for_loop_raising [OF f this]
    have w': "device w' = device w3"
      using c q Inr f assms(2)
      by (auto simp: run_optimizer_def run_from_def finish_def l0_def w2'_def print_def
          split: signal.splits sum.splits)
    with g assms(3) have three: "fst (device w3) = 3" by simp
    with g d2' have sg: "sg = Raise (Propagated e)" and len: "length (cost_history l) \<le> 2"
      by (auto simp: l0_def)
    from f sg for_loop_Raise [of opt "raising_on 3 e cost_function" interval execs_per_step
        "range_py num_steps" l0 w2' "Propagated e" l w3]
    have "length (cost_history l) = length (exec_history l)"
      by (auto simp: l0_def)
    moreover from c q Inr f sg assms(2)
    have "out = Raised (Propagated e) (cost_history l) (Some (exec_history l))"
      by (simp add: run_optimizer_def run_from_def finish_def l0_def w2'_def)
    ultimately show ?thesis using len three w' by auto
  qed
qed

text \<open>
  With an optimizer that never evaluates the cost function, the third call is the one that
  monitors the second step: one step is complete.
\<close>

theorem third_call_raises_witness:
  "fst (device world0) = 0
   \<and> run_optimizer fixed_shift (raising_on 3 ''boom'' sum_squares) 0 5 1 (PyInt 2) world0
       = (Raised (Propagated ''boom'') [9, 4] (Some [PyInt 0, PyInt 2]),
          \<lparr>heap = [[3], [3], [2], [1]],
           stdout = [Running ''FixedShift'' 5, Status 0 (PyInt 0) 9, Status 1 (PyInt 2) 4],
           device = (3, ()), optimizer = 3, np_random = ()\<rparr>)
   \<and> (3::nat) \<le> fst (3, ())
   \<and> length [9, 4 :: int] = length [PyInt 0, PyInt 2] \<and> length [9, 4 :: int] \<le> 2"
proof -
  have h: "fst (device world0) = 0" by (simp add: world0_def)
  have r: "run_optimizer fixed_shift (raising_on 3 ''boom'' sum_squares) 0 5 1 (PyInt 2) world0
       = (Raised (Propagated ''boom'') [9, 4] (Some [PyInt 0, PyInt 2]),
          \<lparr>heap = [[3], [3], [2], [1]],
           stdout = [Running ''FixedShift'' 5, Status 0 (PyInt 0) 9, Status 1 (PyInt 2) 4],
           device = (3, ()), optimizer = 3, np_random = ()\<rparr>)"
    by (simp add: run_simps upt_rec)
  have t: "3 \<le> fst (device \<lparr>heap = [[3], [3], [2], [1 :: int]],
           stdout = [Running ''FixedShift'' 5, Status 0 (PyInt 0) 9, Status 1 (PyInt 2) (4 :: int)],
           device = (3 :: nat, ()), optimizer = 3 :: nat, np_random = ()\<rparr>)"
    by simp
  from third_call_raises [OF h r t] h r show ?thesis by simp
qed

text \<open>
  With an optimizer that evaluates the cost function twice in each step, as SPSA does, the
  third call falls into the first step: no step is complete, the cost history holds 1 entry.
\<close>

theorem third_call_raises_counterexample:
  "run_optimizer two_point (raising_on 3 ''boom'' sum_squares) 0 5 1 (PyInt 2) world0
     = (Raised (Propagated ''boom'') [9] (Some [PyInt 0]),
        \<lparr>heap = [[3], [3]], stdout = [Running ''TwoPoint'' 5, Status 0 (PyInt 0) 9],
         device = (3, ()), optimizer = 1, np_random = ()\<rparr>)
   \<and> length [9 :: int] \<noteq> 3"
  by (simp add: run_simps upt_rec)

section \<open>SPSA\<close>

lemma spsa_issues_two:
  "exec_prog (counted cf) (opt_step (spsa_optimizer cfg flip) st theta) (n, d)
     = ((Inr r, arg, st'), (n', d'))
     \<Longrightarrow> n' = n + 2"
  by (auto simp: spsa_optimizer_def spsa_step_def counted_def Let_def
      split: prod.splits sum.splits)

lemma run_spsa_two_steps:
  "run_optimizer (spsa_optimizer config1 lcg) (counted total) 0 2 1 execs_per_step_spsa world_spsa
     = (Returned [2, 0, - (4 / 3)] [PyInt 0, PyInt 2, PyInt 4],
        \<lparr>heap = [[1, 1], [1, 1], [0, 0], [- (2 / 3), - (2 / 3)]],
         stdout = [Running ''SPSAOptimizer'' 2, Status 0 (PyInt 0) 2, Status 1 (PyInt 2) 0,
                   Status 2 (PyInt 4) (- (4 / 3))],
         device = (7, ()), optimizer = \<lparr>iteration = 3\<rparr>, np_random = 11\<rparr>)"
  by (simp add: run_simps spsa_simps upt_rec world_spsa_def execs_per_step_spsa_def)

lemma run_spsa_vqe_step:
  "run_optimizer (spsa_optimizer config1 lcg) (counted total) 0 1 20 execs_per_step_spsa_vqe world_spsa
     = (Returned [2, 0] [PyInt 0, PyInt 30],
        \<lparr>heap = [[1, 1], [1, 1], [0, 0]],
         stdout = [Running ''SPSAOptimizer'' 1, Status 0 (PyInt 0) 2, Status 1 (PyInt 30) 0],
         device = (4, ()), optimizer = \<lparr>iteration = 2\<rparr>, np_random = 1\<rparr>)"
  by (simp add: run_simps spsa_simps upt_rec world_spsa_def execs_per_step_spsa_vqe_def)

text \<open>
  C1, as the code has it. A step of the SPSA strategy that returns has issued exactly two
  evaluations of the cost function, whatever the length of the parameter vector. The cost
  declared to the run loop for SPSA does not depend on that length either, but it is 2 only
  on the sampling device (line 266); for the \<open>H\<^sub>2\<close> energy it is \<open>2 * 15\<close> (line 456), since each
  evaluation of the energy runs one circuit for each of the 15 terms of the Hamiltonian.
\<close>

theorem spsa_two_evaluations:
  assumes "exec_prog (counted cost_function) (opt_step (spsa_optimizer cfg flip) st theta) (n, d)
             = ((Inr r, arg, st'), (n', d'))"
    and "run_optimizer (spsa_optimizer cfg1 flip1) cost_function1 init_param1 num_steps1 interval1
             execs_per_step_spsa w1 = (Returned ch1 eh1, w1')"
    and "k1 < nat num_steps1"
    and "run_optimizer (spsa_optimizer cfg2 flip2) cost_function2 init_param2 num_steps2 interval2
             execs_per_step_spsa_vqe w2 = (Returned ch2 eh2, w2')"
    and "k2 < nat num_steps2"
  shows "n' = n + 2
         \<and> int_of (eh1 ! Suc k1) - int_of (eh1 ! k1) = 2
         \<and> int_of (eh2 ! Suc k2) - int_of (eh2 ! k2) = 2 * 15"
proof -
  from assms(1) have "n' = n + 2" by (rule spsa_issues_two)
  moreover
  have "exact_upto execs_per_step_spsa num_steps1" "exact_upto execs_per_step_spsa_vqe num_steps2"
    by (simp_all add: execs_per_step_spsa_def execs_per_step_spsa_vqe_def)
  note e = exact_count_nth [OF assms(2) this(1)] exact_count_nth [OF assms(4) this(2)]
  from assms(3) e(1) [of k1] e(1) [of "Suc k1"]
  have "int_of (eh1 ! Suc k1) - int_of (eh1 ! k1) = int_of execs_per_step_spsa"
    by (simp add: algebra_simps)
  moreover from assms(5) e(2) [of k2] e(2) [of "Suc k2"]
  have "int_of (eh2 ! Suc k2) - int_of (eh2 ! k2) = int_of execs_per_step_spsa_vqe"
    by (simp add: algebra_simps)
  ultimately show ?thesis
    by (simp add: execs_per_step_spsa_def execs_per_step_spsa_vqe_def)
qed

theorem spsa_two_evaluations_witness:
  "exec_prog (counted total) (opt_step (spsa_optimizer config1 lcg)
      (\<lparr>iteration = 1\<rparr>, 7) [1, 1, 1]) (0, ())
     = ((Inr [1 / 2, 1 / 2, 3 / 2], [1, 1, 1], (\<lparr>iteration = 2\<rparr>, 8)), (2, ()))
   \<and> run_optimizer (spsa_optimizer config1 lcg) (counted total) 0 2 1 execs_per_step_spsa world_spsa
     = (Returned [2, 0, - (4 / 3)] [PyInt 0, PyInt 2, PyInt 4],
        \<lparr>heap = [[1, 1], [1, 1], [0, 0], [- (2 / 3), - (2 / 3)]],
         stdout = [Running ''SPSAOptimizer'' 2, Status 0 (PyInt 0) 2, Status 1 (PyInt 2) 0,
                   Status 2 (PyInt 4) (- (4 / 3))],
         device = (7, ()), optimizer = \<lparr>iteration = 3\<rparr>, np_random = 11\<rparr>)
   \<and> (1::nat) < nat 2
   \<and> run_optimizer (spsa_optimizer config1 lcg) (counted total) 0 1 20 execs_per_step_spsa_vqe world_spsa
     = (Returned [2, 0] [PyInt 0, PyInt 30],
        \<lparr>heap = [[1, 1], [1, 1], [0, 0]],
         stdout = [Running ''SPSAOptimizer'' 1, Status 0 (PyInt 0) 2, Status 1 (PyInt 30) 0],
         device = (4, ()), optimizer = \<lparr>iteration = 2\<rparr>, np_random = 1\<rparr>)
   \<and> (0::nat) < nat 1
   \<and> (2::nat) = 0 + 2
   \<and> int_of ([PyInt 0, PyInt 2, PyInt 4] ! Suc 1) - int_of ([PyInt 0, PyInt 2, PyInt 4] ! 1) = 2
   \<and> int_of ([PyInt 0, PyInt 30] ! Suc 0) - int_of ([PyInt 0, PyInt 30] ! 0) = 2 * 15"
proof -
  have x: "exec_prog (counted total) (opt_step (spsa_optimizer config1 lcg)
      (\<lparr>iteration = 1\<rparr>, 7) [1, 1, 1]) (0, ())
     = ((Inr [1 / 2, 1 / 2, 3 / 2], [1, 1, 1], (\<lparr>iteration = 2\<rparr>, 8)), (2, ()))"
    by (simp add: spsa_simps counted_def)
  have k1: "(1::nat) < nat 2" and k2: "(0::nat) < nat 1" by simp_all
  from spsa_two_evaluations [OF x run_spsa_two_steps k1 run_spsa_vqe_step k2]
    x run_spsa_two_steps run_spsa_vqe_step
  show ?thesis by simp
qed

text \<open>
  One step of SPSA for the \<open>H\<^sub>2\<close> energy, with the cost the script declares for it: the step is
  charged 30, not 2.
\<close>

theorem spsa_declared_cost_counterexample:
  "fst (run_optimizer (spsa_optimizer config1 lcg) (counted total) 0 1 20
          execs_per_step_spsa_vqe world_spsa)
     = Returned [2, 0] [PyInt 0, PyInt 30]
   \<and> int_of ([PyInt 0, PyInt 30] ! 1) - int_of ([PyInt 0, PyInt 30] ! 0) \<noteq> 2"
  using run_spsa_vqe_step by simp

section \<open>Reproducible runs\<close>

subsection \<open>A run does not depend on where it starts\<close>













subsection \<open>A deterministic cost function\<close>









subsection \<open>The trajectory of SPSA\<close>










subsection \<open>Two seeded runs\<close>







text \<open>
  The seed and the new optimizer object are both needed. When the generator is not seeded
  again, the second run draws other perturbations; when the optimizer object of the first run
  is used again, its iteration index goes on from 4 and the step sizes are smaller.
\<close>

lemma run_not_seeded_again:
  "fst (run_optimizer (spsa_optimizer config1 lcg) (counted total) 1 3 2 (PyInt 2)
          (world_first\<lparr>optimizer := spsa_new\<rparr>))
     = Returned [2, 0, 0, - 1] [PyInt 0, PyInt 2, PyInt 4, PyInt 6]"
  by (simp add: run_simps spsa_simps upt_rec world_first_def)

lemma run_same_optimizer_object:
  "fst (run_optimizer (spsa_optimizer config1 lcg) (counted total) 1 3 2 (PyInt 2)
          (np_random_seed lcg_seeded 2 world_first))
     = Returned [2, 2, 4 / 3, 4 / 3] [PyInt 0, PyInt 2, PyInt 4, PyInt 6]"
  by (simp add: run_simps spsa_simps upt_rec world_first_def np_random_seed_def lcg_seeded_def)

end
